theory Spec2Isabelle
  imports
    Main
    "HOL-Library.Char_ord"
    "HOL-Library.List_Lexorder"
    "HOL-Library.Product_Lexorder"
    "HOL-Library.Multiset"
begin

section \<open>Values, keys and entities\<close>

text \<open>
  The module \<^verbatim>\<open>jobs/job_utils.py\<close> is Python 2 code (its \<^verbatim>\<open>__future__\<close> imports, the
  \<^verbatim>\<open>google.appengine.ext.ndb\<close> runtime). The values it handles are modelled by a small
  universe: \<^verbatim>\<open>None\<close>, integers, strings and datastore keys. A datastore key is a
  non-empty path of (kind, id) pairs, parents first, together with a namespace; an id is
  an integer or a string, or \<^verbatim>\<open>None\<close> in a key that is incomplete.
\<close>

datatype ident = NoId | IntId int | StrId string

record ndb_key =
  parent_pairs :: "(string \<times> ident) list"
  key_kind :: string
  key_id :: ident
  key_namespace :: string

text \<open>\<^verbatim>\<open>Key.flat()\<close>: the whole path, the key's own (kind, id) last.\<close>

definition flat :: "ndb_key \<Rightarrow> (string \<times> ident) list" where
  "flat k = parent_pairs k @ [(key_kind k, key_id k)]"

datatype pyval = PyNone | PyInt int | PyStr string | PyKey ndb_key

fun ident_value :: "ident \<Rightarrow> pyval" where
  "ident_value NoId = PyNone"
| "ident_value (IntId i) = PyInt i"
| "ident_value (StrId s) = PyStr s"

datatype py_error =
    TypeError string
  | ValueError string
  | AttributeError string
  | KindError string
  | BadQueryError string
  | BadArgumentError string

text \<open>
  A model class has a name and the kind its \<^verbatim>\<open>_get_kind()\<close> returns (the class name
  unless overridden). An entity is an instance: its class, its key (\<^verbatim>\<open>None\<close> until one
  is assigned) and its property values. The elements a caller can hand to the accessors
  are entities, model classes, and objects that are neither.
\<close>

record model_class =
  class_name :: string
  get_kind :: string

record model =
  model_type :: model_class
  key :: "ndb_key option"
  properties :: "string \<rightharpoonup> pyval"

datatype py_object = Model model | ModelType model_class | NonModel

definition key_value :: "ndb_key option \<Rightarrow> pyval" where
  "key_value ko = (case ko of None \<Rightarrow> PyNone | Some k \<Rightarrow> PyKey k)"

text \<open>
  \<^verbatim>\<open>getattr(model, name)\<close> on an entity: the attribute \<^verbatim>\<open>key\<close>, or a property value;
  any other name raises \<^verbatim>\<open>AttributeError\<close>.
\<close>

definition getattr :: "model \<Rightarrow> string \<Rightarrow> py_error + pyval" where
  "getattr m name =
     (if name = ''key'' then Inr (key_value (key m))
      else case properties m name of
             Some v \<Rightarrow> Inr v
           | None \<Rightarrow> Inl (AttributeError name))"

section \<open>Entity accessors\<close>

definition get_model_key :: "py_object \<Rightarrow> py_error + pyval" where
  "get_model_key obj =
     (case obj of
        Model m \<Rightarrow> Inr (key_value (key m))
      | _ \<Rightarrow> Inl (TypeError ''%r is not a model instance''))"

definition get_model_kind :: "py_object \<Rightarrow> py_error + string" where
  "get_model_kind obj =
     (case obj of
        Model m \<Rightarrow> Inr (get_kind (model_type m))
      | ModelType c \<Rightarrow> Inr (get_kind c)
      | NonModel \<Rightarrow> Inl (TypeError ''%r is not a model type or instance''))"

definition get_model_id :: "py_object \<Rightarrow> py_error + pyval" where
  "get_model_id obj =
     (case obj of
        Model m \<Rightarrow>
          Inr (case key m of None \<Rightarrow> PyNone | Some k \<Rightarrow> ident_value (key_id k))
      | _ \<Rightarrow> Inl (TypeError ''%r is not a model instance''))"

definition get_model_property :: "py_object \<Rightarrow> string \<Rightarrow> py_error + pyval" where
  "get_model_property obj property_name =
     (if property_name = ''id'' then get_model_id obj
      else if property_name = ''__key__'' then get_model_key obj
      else case obj of
             Model m \<Rightarrow> getattr m property_name
           | _ \<Rightarrow> Inl (TypeError ''%r is not a model instance''))"

section \<open>Comparing values\<close>

text \<open>
  Python 2 compares any two values without raising. Within a type the order is the
  natural one (integers by value, strings lexicographically, keys as ndb does: by
  namespace, then by the path of (kind, id) pairs). Across types \<^verbatim>\<open>None\<close> is below
  everything, numbers are below other objects, and the rest is ordered by type name
  (\<^verbatim>\<open>Key\<close> before \<^verbatim>\<open>str\<close> and \<^verbatim>\<open>unicode\<close>). The rank of a value puts it into a
  lexicographically ordered tuple that realises this order.
\<close>

fun ident_rank :: "ident \<Rightarrow> nat \<times> int \<times> string" where
  "ident_rank NoId = (0, 0, [])"
| "ident_rank (IntId i) = (1, i, [])"
| "ident_rank (StrId s) = (2, 0, s)"

definition key_tuple :: "ndb_key \<Rightarrow> string \<times> (string \<times> nat \<times> int \<times> string) list" where
  "key_tuple k = (key_namespace k, map (\<lambda>(kd, i). (kd, ident_rank i)) (flat k))"

fun py_rank ::
  "pyval \<Rightarrow> nat \<times> int \<times> (string \<times> (string \<times> nat \<times> int \<times> string) list) \<times> string" where
  "py_rank PyNone = (0, 0, ([], []), [])"
| "py_rank (PyInt i) = (1, i, ([], []), [])"
| "py_rank (PyKey k) = (2, 0, key_tuple k, [])"
| "py_rank (PyStr s) = (3, 0, ([], []), s)"

definition operator_lt :: "pyval \<Rightarrow> pyval \<Rightarrow> bool" where
  "operator_lt a b = (py_rank a < py_rank b)"

definition operator_le :: "pyval \<Rightarrow> pyval \<Rightarrow> bool" where
  "operator_le a b = (py_rank a \<le> py_rank b)"

definition operator_eq :: "pyval \<Rightarrow> pyval \<Rightarrow> bool" where
  "operator_eq a b = (a = b)"

definition operator_ge :: "pyval \<Rightarrow> pyval \<Rightarrow> bool" where
  "operator_ge a b = (py_rank b \<le> py_rank a)"

definition operator_gt :: "pyval \<Rightarrow> pyval \<Rightarrow> bool" where
  "operator_gt a b = (py_rank b < py_rank a)"

definition get_operator :: "string \<Rightarrow> py_error + (pyval \<Rightarrow> pyval \<Rightarrow> bool)" where
  "get_operator comp_str =
     (if comp_str = ''<'' then Inr operator_lt
      else if comp_str = ''<='' then Inr operator_le
      else if comp_str = ''='' then Inr operator_eq
      else if comp_str = ''>='' then Inr operator_ge
      else if comp_str = ''>'' then Inr operator_gt
      else Inl (ValueError (''Unsupported comparison operator: '' @ comp_str)))"

section \<open>Sorting a list in place\<close>

text \<open>
  \<^verbatim>\<open>list.sort(key=..., reverse=...)\<close> is a stable sort that only asks whether one key is
  less than another. It computes the key of every element first, in list order, and an
  exception raised by the key function leaves the list as it was. With
  \<^verbatim>\<open>reverse=True\<close> the list is reversed, sorted, and reversed again, which keeps
  elements with equal keys in their original order. The stable sort itself is modelled
  by insertion: an element goes in front of the first one that is not below it.
\<close>

fun insort_by :: "('a \<Rightarrow> 'a \<Rightarrow> bool) \<Rightarrow> 'a \<Rightarrow> 'a list \<Rightarrow> 'a list" where
  "insort_by r x [] = [x]"
| "insort_by r x (y # ys) = (if r x y then x # y # ys else y # insort_by r x ys)"

definition stable_sort_by :: "('a \<Rightarrow> 'a \<Rightarrow> bool) \<Rightarrow> 'a list \<Rightarrow> 'a list" where
  "stable_sort_by r xs = foldr (insort_by r) xs []"

fun traverse :: "('a \<Rightarrow> py_error + 'b) \<Rightarrow> 'a list \<Rightarrow> py_error + 'b list" where
  "traverse f [] = Inr []"
| "traverse f (x # xs) =
     (case f x of
        Inl e \<Rightarrow> Inl e
      | Inr y \<Rightarrow> (case traverse f xs of Inl e \<Rightarrow> Inl e | Inr ys \<Rightarrow> Inr (y # ys)))"

definition not_above :: "pyval \<times> 'a \<Rightarrow> pyval \<times> 'a \<Rightarrow> bool" where
  "not_above a b = (\<not> operator_lt (fst b) (fst a))"

definition list_sort :: "('a \<Rightarrow> py_error + pyval) \<Rightarrow> bool \<Rightarrow> 'a list \<Rightarrow> py_error + 'a list" where
  "list_sort keyfunc reverse xs =
     (case traverse keyfunc xs of
        Inl e \<Rightarrow> Inl e
      | Inr keys \<Rightarrow>
          Inr (map snd
            (if reverse then rev (stable_sort_by not_above (rev (zip keys xs)))
             else stable_sort_by not_above (zip keys xs))))"

section \<open>The flat query and its evaluation\<close>

text \<open>
  The flat query of the processing framework: every field may be \<^verbatim>\<open>None\<close>. A filter is
  a triple (property name, comparison operator, value); an order key is a property name,
  with a leading \<^verbatim>\<open>-\<close> for descending.
\<close>

record query =
  kind :: "string option"
  namespace :: "string option"
  filters :: "(string \<times> string \<times> pyval) list option"
  order :: "string list option"
  limit :: "int option"

text \<open>
  The evaluation mutates the caller's list and may raise. Its outcome is the exception
  raised, if any, together with the list as it is left behind.
\<close>

type_synonym 'a outcome = "py_error option \<times> 'a list"

text \<open>
  \<^verbatim>\<open>model_list[:] = [m for m in model_list if cond(m)]\<close>: the comprehension is evaluated
  in full before the list is overwritten, so an exception leaves the list untouched.
\<close>

fun comprehension :: "('a \<Rightarrow> py_error + bool) \<Rightarrow> 'a list \<Rightarrow> py_error + 'a list" where
  "comprehension cond [] = Inr []"
| "comprehension cond (m # ms) =
     (case cond m of
        Inl e \<Rightarrow> Inl e
      | Inr b \<Rightarrow>
          (case comprehension cond ms of
             Inl e \<Rightarrow> Inl e
           | Inr ys \<Rightarrow> Inr (if b then m # ys else ys)))"

definition assign_all :: "py_error + 'a list \<Rightarrow> 'a list \<Rightarrow> 'a outcome" where
  "assign_all r model_list =
     (case r of Inl e \<Rightarrow> (Some e, model_list) | Inr ys \<Rightarrow> (None, ys))"

text \<open>Statements in sequence: the first exception stops the run.\<close>

fun run_steps :: "('a list \<Rightarrow> 'a outcome) list \<Rightarrow> 'a list \<Rightarrow> 'a outcome" where
  "run_steps [] model_list = (None, model_list)"
| "run_steps (step # steps) model_list =
     (case step model_list of
        (Some e, ml) \<Rightarrow> (Some e, ml)
      | (None, ml) \<Rightarrow> run_steps steps ml)"

text \<open>\<^verbatim>\<open>m.key.namespace()\<close> on a list element.\<close>

definition key_namespace_of :: "py_object \<Rightarrow> py_error + string" where
  "key_namespace_of obj =
     (case obj of
        Model m \<Rightarrow>
          (case key m of
             None \<Rightarrow> Inl (AttributeError ''namespace'')
           | Some k \<Rightarrow> Inr (key_namespace k))
      | ModelType c \<Rightarrow> Inl (AttributeError ''namespace'')
      | NonModel \<Rightarrow> Inl (AttributeError ''key''))"

text \<open>
  \<^verbatim>\<open>all(_get_operator(comp)(get_model_property(m, name), value) for name, comp, value in
  query.filters)\<close>: the filters are tried in order and the first false one ends the scan.
\<close>

fun all_filters :: "py_object \<Rightarrow> (string \<times> string \<times> pyval) list \<Rightarrow> py_error + bool" where
  "all_filters m [] = Inr True"
| "all_filters m ((name, comp_str, val) # fs) =
     (case get_operator comp_str of
        Inl e \<Rightarrow> Inl e
      | Inr opr \<Rightarrow>
          (case get_model_property m name of
             Inl e \<Rightarrow> Inl e
           | Inr v \<Rightarrow> if opr v val then all_filters m fs else Inr False))"

definition startswith :: "string \<Rightarrow> string \<Rightarrow> bool" where
  "startswith s prefix = (take (length prefix) s = prefix)"

definition sort_by_property_name :: "py_object list \<Rightarrow> string \<Rightarrow> py_object outcome" where
  "sort_by_property_name model_list property_name =
     (let (reverse, property_name) =
            (if startswith property_name ''-'' then (True, drop 1 property_name)
             else (False, property_name))
      in assign_all
           (list_sort (\<lambda>m. get_model_property m property_name) reverse model_list)
           model_list)"

text \<open>\<^verbatim>\<open>del xs[i:]\<close>, with Python's reading of a negative index.\<close>

definition del_from :: "int \<Rightarrow> 'a list \<Rightarrow> 'a list" where
  "del_from i xs =
     (if 0 \<le> i then take (nat i) xs else take (nat (int (length xs) + i)) xs)"

text \<open>The five conditional blocks of \<^verbatim>\<open>apply_query_to_models\<close>, in source order.\<close>

definition kind_block :: "query \<Rightarrow> py_object list \<Rightarrow> py_object outcome" where
  "kind_block q model_list =
     (case kind q of
        None \<Rightarrow> (None, model_list)
      | Some kd \<Rightarrow>
          if kd = [] then (None, model_list)
          else assign_all
            (comprehension
               (\<lambda>m. case get_model_kind m of Inl e \<Rightarrow> Inl e | Inr k \<Rightarrow> Inr (k = kd))
               model_list)
            model_list)"

definition namespace_block :: "query \<Rightarrow> py_object list \<Rightarrow> py_object outcome" where
  "namespace_block q model_list =
     (case namespace q of
        None \<Rightarrow> (None, model_list)
      | Some ns \<Rightarrow>
          if ns = [] then (None, model_list)
          else assign_all
            (comprehension
               (\<lambda>m. case key_namespace_of m of Inl e \<Rightarrow> Inl e | Inr n \<Rightarrow> Inr (n = ns))
               model_list)
            model_list)"

definition filters_block :: "query \<Rightarrow> py_object list \<Rightarrow> py_object outcome" where
  "filters_block q model_list =
     (case filters q of
        None \<Rightarrow> (None, model_list)
      | Some fs \<Rightarrow>
          if fs = [] then (None, model_list)
          else assign_all (comprehension (\<lambda>m. all_filters m fs) model_list) model_list)"

definition order_block :: "query \<Rightarrow> py_object list \<Rightarrow> py_object outcome" where
  "order_block q model_list =
     (case order q of
        None \<Rightarrow> (None, model_list)
      | Some os \<Rightarrow>
          if os = [] then (None, model_list)
          else run_steps (map (\<lambda>ord ml. sort_by_property_name ml ord) (rev os)) model_list)"

definition limit_block :: "query \<Rightarrow> py_object list \<Rightarrow> py_object outcome" where
  "limit_block q model_list =
     (case limit q of
        None \<Rightarrow> (None, model_list)
      | Some n \<Rightarrow>
          if n = 0 then (None, model_list) else (None, del_from n model_list))"

definition kind_order_message :: string where
  "kind_order_message = ''Query(kind=None) must also have order=('__key__',)''"

definition apply_query_to_models :: "query \<Rightarrow> py_object list \<Rightarrow> py_object outcome" where
  "apply_query_to_models q model_list =
     (if kind q = None \<and> order q \<noteq> Some [''__key__'']
      then (Some (ValueError kind_order_message), model_list)
      else run_steps
        [kind_block q, namespace_block q, filters_block q, order_block q, limit_block q]
        model_list)"

section \<open>Converting entities\<close>

text \<open>
  The flat key of the processing framework: the path elements, a project and a
  namespace. The flat entity is a key with a property map.
\<close>

record beam_key =
  path_elements :: "(string \<times> ident) list"
  project :: "string option"
  beam_namespace :: "string option"

record beam_entity =
  entity_key :: beam_key
  entity_properties :: "string \<rightharpoonup> pyval"

text \<open>
  Modelled from the spec: the entity framework's \<^verbatim>\<open>_to_dict()\<close>, the
  entity-to-dictionary serialisation of all properties, copied verbatim.
\<close>

definition to_dict :: "model \<Rightarrow> (string \<rightharpoonup> pyval)" where
  "to_dict m = properties m"

text \<open>\<^verbatim>\<open>Entity.set_properties\<close> updates the entity's property map with the given one.\<close>

definition set_properties :: "beam_entity \<Rightarrow> (string \<rightharpoonup> pyval) \<Rightarrow> beam_entity" where
  "set_properties e d = e\<lparr>entity_properties := entity_properties e ++ d\<rparr>"

text \<open>
  \<^verbatim>\<open>feconf.OPPIA_PROJECT_ID\<close> is configuration from outside the module; it is the first
  argument here. \<^verbatim>\<open>model.key.flat()\<close> on an entity without a key raises
  \<^verbatim>\<open>AttributeError\<close>.
\<close>

definition get_beam_entity_from_model :: "string \<Rightarrow> model \<Rightarrow> py_error + beam_entity" where
  "get_beam_entity_from_model OPPIA_PROJECT_ID m =
     (case key m of
        None \<Rightarrow> Inl (AttributeError ''flat'')
      | Some k \<Rightarrow>
          Inr (set_properties
                 \<lparr>entity_key = \<lparr>path_elements = flat k, project = Some OPPIA_PROJECT_ID,
                                 beam_namespace = None\<rparr>,
                  entity_properties = Map.empty\<rparr>
                 (to_dict m)))"

text \<open>
  \<^verbatim>\<open>Key.to_client_key()\<close>, as far as the module reads it: the \<^verbatim>\<open>kind\<close> and the
  \<^verbatim>\<open>id_or_name\<close> of the last path element. The client library rejects an empty path
  and a path element whose id is neither a string nor an integer, which is what the path
  of an incomplete key holds. Its \<^verbatim>\<open>id_or_name\<close> is \<^verbatim>\<open>self.id or self.name\<close>, so an
  integer id of 0 reads as \<^verbatim>\<open>None\<close>.
\<close>

definition id_or_name :: "ident \<Rightarrow> ident" where
  "id_or_name i = (if i = IntId 0 then NoId else i)"

definition to_client_key :: "beam_key \<Rightarrow> py_error + string \<times> ident" where
  "to_client_key bk =
     (case rev (path_elements bk) of
        [] \<Rightarrow> Inl (ValueError ''Key path must not be empty.'')
      | (kd, i) # _ \<Rightarrow>
          if list_ex (\<lambda>(kd, i). i = NoId) (path_elements bk)
          then Inl (ValueError ''ID/name was not a string or integer.'')
          else Inr (kd, id_or_name i))"

text \<open>
  \<^verbatim>\<open>Model._lookup_model(kind)\<close>: the global kind-to-type registry, here an explicit map.
\<close>

definition lookup_model :: "(string \<rightharpoonup> model_class) \<Rightarrow> string \<Rightarrow> py_error + model_class" where
  "lookup_model kind_map kd =
     (case kind_map kd of
        None \<Rightarrow> Inl (KindError kd)
      | Some c \<Rightarrow> Inr c)"

text \<open>
  Modelled from the spec: the entity constructor \<^verbatim>\<open>model_class(id=model_id, **props)\<close>,
  accepting an id plus arbitrary named properties. The new entity has a key of its
  class's kind with that id, no parent and the default namespace; constructed with the
  id \<^verbatim>\<open>None\<close> it has no key.
\<close>

definition new_model :: "model_class \<Rightarrow> ident \<Rightarrow> (string \<rightharpoonup> pyval) \<Rightarrow> model" where
  "new_model c model_id props =
     \<lparr>model_type = c,
      key = (if model_id = NoId then None
             else Some \<lparr>parent_pairs = [], key_kind = get_kind c, key_id = model_id,
                        key_namespace = []\<rparr>),
      properties = props\<rparr>"

definition get_model_from_beam_entity ::
  "(string \<rightharpoonup> model_class) \<Rightarrow> beam_entity \<Rightarrow> py_error + model" where
  "get_model_from_beam_entity kind_map e =
     (case to_client_key (entity_key e) of
        Inl err \<Rightarrow> Inl err
      | Inr (kd, model_id) \<Rightarrow>
          (case lookup_model kind_map kd of
             Inl err \<Rightarrow> Inl err
           | Inr c \<Rightarrow> Inr (new_model c model_id (entity_properties e))))"

text \<open>
  A key is complete when every id on its path is a non-zero integer or a non-empty
  string: an entity that has been stored has such a key.
\<close>

definition complete_id :: "ident \<Rightarrow> bool" where
  "complete_id i = (case i of NoId \<Rightarrow> False | IntId n \<Rightarrow> n \<noteq> 0 | StrId s \<Rightarrow> s \<noteq> [])"

definition complete :: "ndb_key \<Rightarrow> bool" where
  "complete k = list_all (\<lambda>(kd, i). complete_id i) (flat k)"

text \<open>The composition \<^verbatim>\<open>get_model_from_beam_entity(get_beam_entity_from_model(e))\<close>.\<close>

definition round_trip ::
  "(string \<rightharpoonup> model_class) \<Rightarrow> string \<Rightarrow> model \<Rightarrow> py_error + model" where
  "round_trip kind_map OPPIA_PROJECT_ID m =
     (case get_beam_entity_from_model OPPIA_PROJECT_ID m of
        Inl err \<Rightarrow> Inl err
      | Inr e \<Rightarrow> get_model_from_beam_entity kind_map e)"

section \<open>Converting queries\<close>

text \<open>
  The native query: kind, namespace, a filter tree and an order, each possibly
  \<^verbatim>\<open>None\<close>. A comparison node holds a property name, the operator code and a value.
  The native constructors normalise every tree: \<^verbatim>\<open>!=\<close>, \<^verbatim>\<open>IN\<close> and \<^verbatim>\<open>OR\<close> yield
  disjunction nodes (or the false node for an empty \<^verbatim>\<open>IN\<close>), nested conjunctions are
  flattened and disjunctions distributed, so that the members of a conjunction node are
  comparison nodes, false nodes, parameter nodes and post-filter nodes. An order is a
  single property order or a composite of property orders.
\<close>

datatype datastore_op =
  LESS_THAN | LESS_THAN_OR_EQUAL | GREATER_THAN | GREATER_THAN_OR_EQUAL | EQUAL

datatype member =
    FilterMember string datastore_op pyval
  | FalseMember
  | ParameterMember
  | PostFilterMember

datatype filter_node =
    FilterNode string datastore_op pyval
  | ConjunctionNode "member list"
  | DisjunctionNode "filter_node list"
  | FalseNode
  | ParameterNode
  | PostFilterNode

datatype order_direction = ASCENDING | DESCENDING

record property_order =
  prop_name :: string
  direction :: order_direction

datatype ndb_order = PropertyOrder property_order | CompositeOrder "property_order list"

record ndb_query =
  ndb_kind :: "string option"
  ndb_namespace :: "string option"
  ndb_filters :: "filter_node option"
  ndb_orders :: "ndb_order option"

text \<open>\<^verbatim>\<open>PropertyFilter._OPERATORS_INVERSE\<close>: from the operator code to its symbol.\<close>

fun OPERATORS_INVERSE :: "datastore_op \<Rightarrow> string" where
  "OPERATORS_INVERSE LESS_THAN = ''<''"
| "OPERATORS_INVERSE LESS_THAN_OR_EQUAL = ''<=''"
| "OPERATORS_INVERSE GREATER_THAN = ''>''"
| "OPERATORS_INVERSE GREATER_THAN_OR_EQUAL = ''>=''"
| "OPERATORS_INVERSE EQUAL = ''=''"

definition forbidden_filters_message :: string where
  "forbidden_filters_message =
     ''`!=`, `IN`, and `OR` are forbidden filters. To emulate their '' @
     ''behavior, use multiple AND queries and flatten them into a single '' @
     ''PCollection.''"

definition beam_filter :: "string \<times> datastore_op \<times> pyval \<Rightarrow> string \<times> string \<times> pyval" where
  "beam_filter c = (case c of (name, opc, v) \<Rightarrow> (name, OPERATORS_INVERSE opc, v))"

text \<open>
  The filter predicates of the datastore library, as far as the module reads them. A
  comparison node converts to a property filter. A conjunction node converts its members
  in order, leaving out the post-filter nodes; a false node or a parameter node makes
  that raise. Two or more converted members are combined by \<^verbatim>\<open>CompositeFilter\<close>, whose
  \<^verbatim>\<open>filters\<close> the module reads; fewer give no composite filter, and reading \<^verbatim>\<open>filters\<close>
  raises \<^verbatim>\<open>AttributeError\<close>.
\<close>

datatype predicate =
    PropertyFilter string datastore_op pyval
  | PropertyRangeFilter string "(pyval \<times> bool) option" "(pyval \<times> bool) option"

fun to_filters :: "member list \<Rightarrow> py_error + predicate list" where
  "to_filters [] = Inr []"
| "to_filters (FilterMember name opc v # ms) =
     (case to_filters ms of
        Inl e \<Rightarrow> Inl e
      | Inr fs \<Rightarrow> Inr (PropertyFilter name opc v # fs))"
| "to_filters (PostFilterMember # ms) = to_filters ms"
| "to_filters (FalseMember # ms) =
     Inl (BadQueryError ''Cannot convert FalseNode to predicate'')"
| "to_filters (ParameterMember # ms) = Inl (BadArgumentError ''Parameter is not bound.'')"

text \<open>
  \<^verbatim>\<open>CompositeFilter(AND, filters)\<close> keeps the equality filters where they are and merges
  the inequality filters on one property into one range filter, at the place of the
  first of them. A range has a start and an end, each with a value and a flag for
  inclusion; intersecting two ranges keeps the tighter start and the tighter end.
\<close>

fun from_property_filter ::
  "datastore_op \<Rightarrow> pyval \<Rightarrow> (pyval \<times> bool) option \<times> (pyval \<times> bool) option" where
  "from_property_filter GREATER_THAN v = (Some (v, False), None)"
| "from_property_filter GREATER_THAN_OR_EQUAL v = (Some (v, True), None)"
| "from_property_filter LESS_THAN v = (None, Some (v, False))"
| "from_property_filter LESS_THAN_OR_EQUAL v = (None, Some (v, True))"
| "from_property_filter EQUAL v = (None, None)"

fun tighter_start ::
  "(pyval \<times> bool) option \<Rightarrow> (pyval \<times> bool) option \<Rightarrow> (pyval \<times> bool) option" where
  "tighter_start None other = other"
| "tighter_start (Some a) None = Some a"
| "tighter_start (Some (v1, i1)) (Some (v2, i2)) =
     (if py_rank v2 < py_rank v1 then Some (v1, i1)
      else if py_rank v1 < py_rank v2 then Some (v2, i2)
      else if i1 \<and> \<not> i2 then Some (v2, i2)
      else Some (v1, i1))"

fun tighter_end ::
  "(pyval \<times> bool) option \<Rightarrow> (pyval \<times> bool) option \<Rightarrow> (pyval \<times> bool) option" where
  "tighter_end None other = other"
| "tighter_end (Some a) None = Some a"
| "tighter_end (Some (v1, i1)) (Some (v2, i2)) =
     (if py_rank v1 < py_rank v2 then Some (v1, i1)
      else if py_rank v2 < py_rank v1 then Some (v2, i2)
      else if i1 \<and> \<not> i2 then Some (v2, i2)
      else Some (v1, i1))"

text \<open>Intersecting a range into the range filter already there for the property.\<close>

fun absorb ::
  "string \<Rightarrow> (pyval \<times> bool) option \<Rightarrow> (pyval \<times> bool) option \<Rightarrow> predicate list \<Rightarrow>
   predicate list option" where
  "absorb name s e [] = None"
| "absorb name s e (PropertyRangeFilter n s' e' # fs) =
     (if n = name
      then Some (PropertyRangeFilter n (tighter_start s' s) (tighter_end e' e) # fs)
      else map_option ((#) (PropertyRangeFilter n s' e')) (absorb name s e fs))"
| "absorb name s e (PropertyFilter n opc v # fs) =
     map_option ((#) (PropertyFilter n opc v)) (absorb name s e fs)"

definition add_range ::
  "predicate list \<Rightarrow> string \<Rightarrow> (pyval \<times> bool) option \<Rightarrow> (pyval \<times> bool) option \<Rightarrow>
   predicate list" where
  "add_range flattened name s e =
     (case absorb name s e flattened of
        Some merged \<Rightarrow> merged
      | None \<Rightarrow> flattened @ [PropertyRangeFilter name s e])"

fun add_filter :: "predicate list \<Rightarrow> predicate \<Rightarrow> predicate list" where
  "add_filter flattened (PropertyFilter name opc v) =
     (if opc = EQUAL then flattened @ [PropertyFilter name opc v]
      else case from_property_filter opc v of (s, e) \<Rightarrow> add_range flattened name s e)"
| "add_filter flattened (PropertyRangeFilter name s e) = add_range flattened name s e"

definition composite_and :: "predicate list \<Rightarrow> predicate list" where
  "composite_and fs = foldl add_filter [] fs"

text \<open>
  \<^verbatim>\<open>_to_pbs()\<close>: a property filter is one comparison; a range filter is the comparison of
  its start, if it has one, then that of its end, if it has one.
\<close>

fun to_pbs :: "predicate \<Rightarrow> (string \<times> datastore_op \<times> pyval) list" where
  "to_pbs (PropertyFilter name opc v) = [(name, opc, v)]"
| "to_pbs (PropertyRangeFilter name s e) =
     (case s of
        None \<Rightarrow> []
      | Some (v, incl) \<Rightarrow>
          [(name, if incl then GREATER_THAN_OR_EQUAL else GREATER_THAN, v)]) @
     (case e of
        None \<Rightarrow> []
      | Some (v, incl) \<Rightarrow> [(name, if incl then LESS_THAN_OR_EQUAL else LESS_THAN, v)])"

text \<open>\<^verbatim>\<open>list(filter_node._to_filter().filters)\<close> on a conjunction node.\<close>

definition conjunction_filters :: "member list \<Rightarrow> py_error + predicate list" where
  "conjunction_filters members =
     (case to_filters members of
        Inl e \<Rightarrow> Inl e
      | Inr fs \<Rightarrow>
          if length fs < 2 then Inl (AttributeError ''filters'') else Inr (composite_and fs))"

fun get_beam_filters_from_ndb_filter_node ::
  "filter_node \<Rightarrow> py_error + (string \<times> string \<times> pyval) list" where
  "get_beam_filters_from_ndb_filter_node (ConjunctionNode members) =
     (case conjunction_filters members of
        Inl e \<Rightarrow> Inl e
      | Inr nodes \<Rightarrow> Inr (map beam_filter (concat (map to_pbs nodes))))"
| "get_beam_filters_from_ndb_filter_node (FilterNode name opc v) =
     Inr (map beam_filter (concat (map to_pbs [PropertyFilter name opc v])))"
| "get_beam_filters_from_ndb_filter_node _ = Inl (TypeError forbidden_filters_message)"

definition get_beam_order_from_ndb_order :: "ndb_order \<Rightarrow> string list" where
  "get_beam_order_from_ndb_order ord =
     map (\<lambda>po. (if direction po = DESCENDING then ''-'' else []) @ prop_name po)
       (case ord of CompositeOrder orders \<Rightarrow> orders | PropertyOrder po \<Rightarrow> [po])"

definition get_beam_query_from_ndb_query :: "ndb_query \<Rightarrow> py_error + query" where
  "get_beam_query_from_ndb_query q =
     (case (case ndb_filters q of
              Some node \<Rightarrow> map_sum (\<lambda>e. e) Some (get_beam_filters_from_ndb_filter_node node)
            | None \<Rightarrow> Inr None) of
        Inl e \<Rightarrow> Inl e
      | Inr fs \<Rightarrow>
          (let ord = (case ndb_orders q of
                        Some orders \<Rightarrow> Some (get_beam_order_from_ndb_order orders)
                      | None \<Rightarrow> None);
               ord = (if ndb_kind q = None \<and> ord = None then Some [''__key__''] else ord)
           in Inr \<lparr>kind = ndb_kind q, namespace = ndb_namespace q, filters = fs,
                   order = ord, limit = None\<rparr>))"

section \<open>The lexicographic multi-key stable sort\<close>

text \<open>
  The sort the evaluation is compared with, written as the standard multi-key sort: every
  entity is decorated with the tuple of its order-key values, in listed priority; two
  tuples are compared key by key, each key in its own direction, the first key on which
  they differ deciding; and the list is sorted stably by that comparison.
\<close>

definition order_name :: "string \<Rightarrow> string" where
  "order_name ord = (if startswith ord ''-'' then drop 1 ord else ord)"

definition order_descending :: "string \<Rightarrow> bool" where
  "order_descending ord = startswith ord ''-''"

definition order_keys :: "string list \<Rightarrow> py_object \<Rightarrow> py_error + pyval list" where
  "order_keys os m = traverse (\<lambda>ord. get_model_property m (order_name ord)) os"

fun lexicographic_lt :: "bool list \<Rightarrow> pyval list \<Rightarrow> pyval list \<Rightarrow> bool" where
  "lexicographic_lt (d # ds) (a # as) (b # bs) =
     (if (if d then operator_lt b a else operator_lt a b) then True
      else if (if d then operator_lt a b else operator_lt b a) then False
      else lexicographic_lt ds as bs)"
| "lexicographic_lt _ _ _ = False"

definition lexicographic_stable_sort ::
  "string list \<Rightarrow> py_object list \<Rightarrow> py_error + py_object list" where
  "lexicographic_stable_sort os model_list =
     (case traverse (order_keys os) model_list of
        Inl e \<Rightarrow> Inl e
      | Inr keys \<Rightarrow>
          Inr (map snd
            (stable_sort_by
               (\<lambda>a b. \<not> lexicographic_lt (map order_descending os) (fst b) (fst a))
               (zip keys model_list))))"

section \<open>Orders that describe a sort\<close>

text \<open>
  A comparison is a total preorder when any two elements compare and the comparison is
  transitive. Two comparisons are combined lexicographically: the first decides, the
  second breaks its ties. The comparison of one sort pass reads the key as the property
  accessor yields it (\<^verbatim>\<open>None\<close> standing in where it raises, which a pass never gets
  to compare), ascending or descending by the sign of the order key; the comparison of a
  whole order is the lexicographic combination of its passes, in listed priority. A list
  is sortable by an order when every key of the order can be read on every element.
\<close>

definition total_preorder :: "('a \<Rightarrow> 'a \<Rightarrow> bool) \<Rightarrow> bool" where
  "total_preorder r = ((\<forall>a b. r a b \<or> r b a) \<and> (\<forall>a b c. r a b \<longrightarrow> r b c \<longrightarrow> r a c))"

definition lex_le :: "('a \<Rightarrow> 'a \<Rightarrow> bool) \<Rightarrow> ('a \<Rightarrow> 'a \<Rightarrow> bool) \<Rightarrow> 'a \<Rightarrow> 'a \<Rightarrow> bool" where
  "lex_le r1 r2 a b = (r1 a b \<and> (r1 b a \<longrightarrow> r2 a b))"

definition key_or_none :: "string \<Rightarrow> py_object \<Rightarrow> pyval" where
  "key_or_none name m = (case get_model_property m name of Inr v \<Rightarrow> v | Inl e \<Rightarrow> PyNone)"

definition pass_le :: "string \<Rightarrow> py_object \<Rightarrow> py_object \<Rightarrow> bool" where
  "pass_le ord a b =
     (if order_descending ord
      then \<not> operator_lt (key_or_none (order_name ord) a) (key_or_none (order_name ord) b)
      else \<not> operator_lt (key_or_none (order_name ord) b) (key_or_none (order_name ord) a))"

fun order_le :: "string list \<Rightarrow> py_object \<Rightarrow> py_object \<Rightarrow> bool" where
  "order_le [] a b = True"
| "order_le (ord # os) a b = lex_le (pass_le ord) (order_le os) a b"

definition has_key :: "py_object \<Rightarrow> string \<Rightarrow> bool" where
  "has_key m ord =
     (case get_model_property m (order_name ord) of Inr v \<Rightarrow> True | Inl e \<Rightarrow> False)"

definition sortable :: "string list \<Rightarrow> py_object list \<Rightarrow> bool" where
  "sortable os ml = list_all (\<lambda>m. list_all (has_key m) os) ml"

section \<open>Filters as a predicate\<close>

text \<open>
  What a filter means, independently of how the evaluation computes it. The operator of
  a filter is one of the five symbols \<^verbatim>\<open><\<close>, \<^verbatim>\<open><=\<close>, \<^verbatim>\<open>=\<close>, \<^verbatim>\<open>>=\<close>, \<^verbatim>\<open>>\<close>, and
  a filter holds of a value when the value stands in that relation to the filter's
  literal. An entity satisfies a filter when the property accessor yields a value for
  the filter's property name and the filter holds of it.
\<close>

definition supported :: "string \<Rightarrow> bool" where
  "supported opsym = (opsym \<in> set [''<'', ''<='', ''='', ''>='', ''>''])"

definition holds :: "string \<Rightarrow> pyval \<Rightarrow> pyval \<Rightarrow> bool" where
  "holds opsym a b =
     ((opsym = ''<'' \<and> py_rank a < py_rank b)
      \<or> (opsym = ''<='' \<and> py_rank a \<le> py_rank b)
      \<or> (opsym = ''='' \<and> a = b)
      \<or> (opsym = ''>='' \<and> py_rank b \<le> py_rank a)
      \<or> (opsym = ''>'' \<and> py_rank b < py_rank a))"

definition satisfies :: "py_object \<Rightarrow> string \<times> string \<times> pyval \<Rightarrow> bool" where
  "satisfies m f =
     (case f of (name, opsym, val) \<Rightarrow>
        (case get_model_property m name of Inl e \<Rightarrow> False | Inr v \<Rightarrow> holds opsym v val))"

text \<open>
  A filter can be evaluated on an entity when its operator is one of the five and the
  property accessor yields a value.
\<close>

definition evaluable :: "py_object \<Rightarrow> string \<times> string \<times> pyval \<Rightarrow> bool" where
  "evaluable m f =
     (case f of (name, opsym, val) \<Rightarrow>
        supported opsym
        \<and> (case get_model_property m name of Inl e \<Rightarrow> False | Inr v \<Rightarrow> True))"

text \<open>
  What a comparison of the native query means as a flat filter: the same property name
  and value, with the symbol of its operator.
\<close>

definition flat_comparison ::
  "string \<times> datastore_op \<times> pyval \<Rightarrow> string \<times> string \<times> pyval" where
  "flat_comparison c =
     (case c of (name, opc, v) \<Rightarrow>
        (name,
         (case opc of
            LESS_THAN \<Rightarrow> ''<''
          | LESS_THAN_OR_EQUAL \<Rightarrow> ''<=''
          | GREATER_THAN \<Rightarrow> ''>''
          | GREATER_THAN_OR_EQUAL \<Rightarrow> ''>=''
          | EQUAL \<Rightarrow> ''=''),
         v))"



text \<open>
  The flat filters a list of predicates stands for, and those of the start and of the
  end of a range.
\<close>

definition triples :: "predicate list \<Rightarrow> (string \<times> string \<times> pyval) list" where
  "triples ps = map flat_comparison (concat (map to_pbs ps))"

definition start_triples :: "string \<Rightarrow> (pyval \<times> bool) option \<Rightarrow> (string \<times> string \<times> pyval) list" where
  "start_triples name s =
     (case s of None \<Rightarrow> [] | Some (v, incl) \<Rightarrow> [(name, if incl then ''>='' else ''>'', v)])"

definition end_triples :: "string \<Rightarrow> (pyval \<times> bool) option \<Rightarrow> (string \<times> string \<times> pyval) list" where
  "end_triples name e =
     (case e of None \<Rightarrow> [] | Some (v, incl) \<Rightarrow> [(name, if incl then ''<='' else ''<'', v)])"

section \<open>Example data\<close>

text \<open>Entities of kind \<^verbatim>\<open>A\<close> with an integer id and a \<^verbatim>\<open>score\<close> property.\<close>

definition class_A :: model_class where
  "class_A = \<lparr>class_name = ''A'', get_kind = ''A''\<rparr>"

definition key_A :: "int \<Rightarrow> ndb_key" where
  "key_A i = \<lparr>parent_pairs = [], key_kind = ''A'', key_id = IntId i, key_namespace = []\<rparr>"

definition model_A :: "int \<Rightarrow> int \<Rightarrow> model" where
  "model_A i s = \<lparr>model_type = class_A, key = Some (key_A i), properties = [''score'' \<mapsto> PyInt s]\<rparr>"

definition entity_A :: "int \<Rightarrow> int \<Rightarrow> py_object" where
  "entity_A i s = Model (model_A i s)"

definition incomplete_A :: model where
  "incomplete_A =
     \<lparr>model_type = class_A,
      key = Some \<lparr>parent_pairs = [], key_kind = ''A'', key_id = NoId, key_namespace = []\<rparr>,
      properties = [''score'' \<mapsto> PyInt 5]\<rparr>"

definition unsaved_A :: model where
  "unsaved_A = \<lparr>model_type = class_A, key = None, properties = [''score'' \<mapsto> PyInt 5]\<rparr>"

definition query_A :: query where
  "query_A = \<lparr>kind = Some ''A'', namespace = None, filters = None, order = None, limit = None\<rparr>"

definition query_None :: ndb_query where
  "query_None = \<lparr>ndb_kind = None, ndb_namespace = None, ndb_filters = None, ndb_orders = None\<rparr>"

lemmas ex_defs = query_A_def entity_A_def model_A_def key_A_def class_A_def unsaved_A_def
  incomplete_A_def

section \<open>Properties of the accessors\<close>

text \<open>
  Claim C8. The property accessor has three cases. Asked for \<^verbatim>\<open>id\<close> it answers what the
  id accessor answers, which on an entity is \<^verbatim>\<open>None\<close> when the key is \<^verbatim>\<open>None\<close> and the
  key's own id otherwise. Asked for \<^verbatim>\<open>__key__\<close> it answers the entity's key itself. Asked
  for any other name it answers the named attribute of the entity and raises
  \<^verbatim>\<open>AttributeError\<close> when the entity has none. In all three cases an argument that is not
  an entity raises \<^verbatim>\<open>TypeError\<close>.
\<close>

theorem get_model_property_cases:
  "get_model_property obj ''id'' = get_model_id obj
   \<and> get_model_id (Model (m\<lparr>key := None\<rparr>)) = Inr PyNone
   \<and> get_model_id (Model (m\<lparr>key := Some k\<rparr>)) = Inr (ident_value (key_id k))
   \<and> get_model_property obj ''__key__'' = get_model_key obj
   \<and> get_model_key (Model m) = Inr (key_value (key m))
   \<and> (name \<noteq> ''id'' \<and> name \<noteq> ''__key__'' \<longrightarrow>
        get_model_property (Model m) name = getattr m name
        \<and> (name \<noteq> ''key'' \<and> properties m name = None \<longrightarrow>
             get_model_property (Model m) name = Inl (AttributeError name))
        \<and> (properties m name = Some v \<and> name \<noteq> ''key'' \<longrightarrow>
             get_model_property (Model m) name = Inr v))
   \<and> ((\<forall>m'. obj \<noteq> Model m') \<longrightarrow>
        get_model_property obj name = Inl (TypeError ''%r is not a model instance''))"
  by (cases obj)
     (simp_all add: get_model_property_def get_model_id_def get_model_key_def getattr_def)

theorem get_model_property_cases_witness:
  "get_model_property (Model \<lparr>model_type = \<lparr>class_name = ''A'', get_kind = ''A''\<rparr>,
      key = None, properties = [''score'' \<mapsto> PyInt 5]\<rparr>) ''score'' = Inr (PyInt 5)
   \<and> get_model_property (Model \<lparr>model_type = \<lparr>class_name = ''A'', get_kind = ''A''\<rparr>,
      key = None, properties = [''score'' \<mapsto> PyInt 5]\<rparr>) ''rank'' = Inl (AttributeError ''rank'')
   \<and> get_model_property (Model \<lparr>model_type = \<lparr>class_name = ''A'', get_kind = ''A''\<rparr>,
      key = None, properties = [''score'' \<mapsto> PyInt 5]\<rparr>) ''id'' = Inr PyNone
   \<and> get_model_property NonModel ''score'' = Inl (TypeError ''%r is not a model instance'')"
  using get_model_property_cases
    [of "Model \<lparr>model_type = \<lparr>class_name = ''A'', get_kind = ''A''\<rparr>,
           key = None, properties = [''score'' \<mapsto> PyInt 5]\<rparr>"
        "\<lparr>model_type = \<lparr>class_name = ''A'', get_kind = ''A''\<rparr>,
           key = None, properties = [''score'' \<mapsto> PyInt 5]\<rparr>"
        "\<lparr>parent_pairs = [], key_kind = ''A'', key_id = IntId 1, key_namespace = []\<rparr>"
        "''score''" "PyInt 5"]
    get_model_property_cases
    [of "Model \<lparr>model_type = \<lparr>class_name = ''A'', get_kind = ''A''\<rparr>,
           key = None, properties = [''score'' \<mapsto> PyInt 5]\<rparr>"
        "\<lparr>model_type = \<lparr>class_name = ''A'', get_kind = ''A''\<rparr>,
           key = None, properties = [''score'' \<mapsto> PyInt 5]\<rparr>"
        "\<lparr>parent_pairs = [], key_kind = ''A'', key_id = IntId 1, key_namespace = []\<rparr>"
        "''rank''" "PyInt 5"]
    get_model_property_cases
    [of NonModel
        "\<lparr>model_type = \<lparr>class_name = ''A'', get_kind = ''A''\<rparr>,
           key = None, properties = [''score'' \<mapsto> PyInt 5]\<rparr>"
        "\<lparr>parent_pairs = [], key_kind = ''A'', key_id = IntId 1, key_namespace = []\<rparr>"
        "''score''" "PyInt 5"]
  by (simp add: getattr_def)

section \<open>Running the blocks\<close>

text \<open>
  What a run of blocks raises is raised by one of the blocks, and the errors of each
  block are those of the accessors and of the operator lookup; none of them is the
  validation error.
\<close>

lemma run_steps_append:
  "run_steps (ss @ [s]) ml =
     (case run_steps ss ml of (Some e, ml') \<Rightarrow> (Some e, ml') | (None, ml') \<Rightarrow> s ml')"
  by (induction ss arbitrary: ml) (auto split: prod.splits option.splits)

lemma run_steps_error:
  assumes "\<And>step ml e. step \<in> set steps \<Longrightarrow> fst (step ml) = Some e \<Longrightarrow> P e"
    and "fst (run_steps steps ml) = Some e"
  shows "P e"
  using assms
proof (induction steps arbitrary: ml)
  case Nil
  then show ?case by simp
next
  case (Cons s ss)
  show ?case
  proof (cases "s ml")
    case (Pair r ml')
    show ?thesis
    proof (cases r)
      case None
      with Pair Cons.prems(2) have "fst (run_steps ss ml') = Some e" by simp
      with Cons.IH Cons.prems(1) show ?thesis by (metis list.set_intros(2))
    next
      case (Some e')
      with Pair Cons.prems(2) have "fst (s ml) = Some e" by simp
      with Cons.prems(1) show ?thesis by (metis list.set_intros(1))
    qed
  qed
qed

lemma comprehension_Inl:
  "comprehension cond ml = Inl e \<Longrightarrow> \<exists>m\<in>set ml. cond m = Inl e"
  by (induction ml) (auto split: sum.splits)

lemma traverse_Inl:
  "traverse f xs = Inl e \<Longrightarrow> \<exists>x\<in>set xs. f x = Inl e"
  by (induction xs) (auto split: sum.splits)

lemma assign_all_error:
  "fst (assign_all r ml) = Some e \<Longrightarrow> r = Inl e \<and> snd (assign_all r ml) = ml"
  by (auto simp: assign_all_def split: sum.splits)

lemma get_model_property_Inl:
  "get_model_property obj name = Inl e \<Longrightarrow> (\<exists>s. e = TypeError s) \<or> (\<exists>s. e = AttributeError s)"
  by (cases obj)
     (auto simp: get_model_property_def get_model_id_def get_model_key_def getattr_def
       split: if_splits option.splits)

lemma get_operator_Inl:
  "get_operator c = Inl e \<Longrightarrow> e = ValueError (''Unsupported comparison operator: '' @ c)"
  by (auto simp: get_operator_def split: if_splits)

lemma all_filters_Inl:
  "all_filters m fs = Inl e \<Longrightarrow> e \<noteq> ValueError kind_order_message"
proof (induction fs)
  case Nil
  then show ?case by simp
next
  case (Cons f fs)
  obtain name c v where f: "f = (name, c, v)" by (cases f)
  from Cons f show ?case
    by (auto simp: kind_order_message_def split: sum.splits if_splits
        dest!: get_operator_Inl get_model_property_Inl)
qed

lemma list_sort_Inl:
  "list_sort kf r xs = Inl e \<Longrightarrow> \<exists>x\<in>set xs. kf x = Inl e"
  by (auto simp: list_sort_def split: sum.splits dest: traverse_Inl)

lemma sort_by_property_name_error:
  "fst (sort_by_property_name ml ord) = Some e \<Longrightarrow> e \<noteq> ValueError kind_order_message"
  by (auto simp: sort_by_property_name_def split: if_splits
      dest!: assign_all_error list_sort_Inl get_model_property_Inl)

lemma kind_block_error:
  "fst (kind_block q ml) = Some e \<Longrightarrow> e \<noteq> ValueError kind_order_message"
  by (auto simp: kind_block_def get_model_kind_def
      split: option.splits if_splits sum.splits py_object.splits
      dest!: assign_all_error comprehension_Inl)

lemma namespace_block_error:
  "fst (namespace_block q ml) = Some e \<Longrightarrow> e \<noteq> ValueError kind_order_message"
  by (auto simp: namespace_block_def key_namespace_of_def
      split: option.splits if_splits sum.splits py_object.splits
      dest!: assign_all_error comprehension_Inl)

lemma filters_block_error:
  "fst (filters_block q ml) = Some e \<Longrightarrow> e \<noteq> ValueError kind_order_message"
  by (auto simp: filters_block_def split: option.splits if_splits
      dest!: assign_all_error comprehension_Inl all_filters_Inl)

lemma order_block_error:
  assumes "fst (order_block q ml) = Some e"
  shows "e \<noteq> ValueError kind_order_message"
proof (cases "order q")
  case None
  with assms show ?thesis by (simp add: order_block_def)
next
  case (Some os)
  show ?thesis
  proof (cases "os = []")
    case True
    with Some assms show ?thesis by (simp add: order_block_def)
  next
    case False
    with Some assms
    have "fst (run_steps (map (\<lambda>ord ml. sort_by_property_name ml ord) (rev os)) ml) = Some e"
      by (simp add: order_block_def)
    then show ?thesis
      by (rule run_steps_error[rotated]) (auto dest: sort_by_property_name_error)
  qed
qed

lemma limit_block_error: "fst (limit_block q ml) \<noteq> Some e"
  by (simp add: limit_block_def split: option.splits)

lemma apply_query_to_models_valid:
  "\<not> (kind q = None \<and> order q \<noteq> Some [''__key__'']) \<Longrightarrow>
     apply_query_to_models q ml =
       run_steps
         [kind_block q, namespace_block q, filters_block q, order_block q, limit_block q] ml"
  by (simp only: apply_query_to_models_def if_False)

section \<open>The validation of a query without a kind\<close>

text \<open>
  Claim C3. A flat query without a kind whose order is anything but exactly
  \<^verbatim>\<open>('__key__',)\<close> makes \<^verbatim>\<open>apply_query_to_models\<close> raise the validation error, whatever
  the list holds, and the list is left as it was: nothing else has been done. With no
  kind and the order \<^verbatim>\<open>('__key__',)\<close> that error is not raised, whatever else happens.
\<close>

theorem validation_error_iff:
  "(kind q = None \<and> order q \<noteq> Some [''__key__''] \<longrightarrow>
      apply_query_to_models q ml = (Some (ValueError kind_order_message), ml))
   \<and> (kind q = None \<and> order q = Some [''__key__''] \<longrightarrow>
      fst (apply_query_to_models q ml) \<noteq> Some (ValueError kind_order_message))"
proof (intro conjI impI)
  assume "kind q = None \<and> order q \<noteq> Some [''__key__'']"
  then show "apply_query_to_models q ml = (Some (ValueError kind_order_message), ml)"
    by (simp add: apply_query_to_models_def)
next
  assume a: "kind q = None \<and> order q = Some [''__key__'']"
  show "fst (apply_query_to_models q ml) \<noteq> Some (ValueError kind_order_message)"
  proof
    assume "fst (apply_query_to_models q ml) = Some (ValueError kind_order_message)"
    with a have "fst (run_steps
        [kind_block q, namespace_block q, filters_block q, order_block q, limit_block q] ml)
      = Some (ValueError kind_order_message)"
      by (simp add: apply_query_to_models_def)
    then have "ValueError kind_order_message \<noteq> ValueError kind_order_message"
      by (rule run_steps_error[rotated])
         (auto dest: kind_block_error namespace_block_error filters_block_error
           order_block_error simp: limit_block_error)
    then show False by simp
  qed
qed

theorem validation_error_iff_witness:
  "apply_query_to_models (query_A\<lparr>kind := None, order := Some [''id'']\<rparr>) [entity_A 2 5, NonModel]
     = (Some (ValueError kind_order_message), [entity_A 2 5, NonModel])
   \<and> fst (apply_query_to_models (query_A\<lparr>kind := None, order := Some [''__key__'']\<rparr>)
        [entity_A 2 5, NonModel]) \<noteq> Some (ValueError kind_order_message)"
  using validation_error_iff
      [of "query_A\<lparr>kind := None, order := Some [''id'']\<rparr>" "[entity_A 2 5, NonModel]"]
    validation_error_iff
      [of "query_A\<lparr>kind := None, order := Some [''__key__'']\<rparr>" "[entity_A 2 5, NonModel]"]
  by (simp add: query_A_def)

section \<open>Empty strings filter nothing\<close>

text \<open>
  Claim C10. The namespace block runs only when the query's namespace is truthy. With
  the empty string as namespace it keeps every element of the list, whatever the key's
  namespace and even where reading that namespace would raise, and the whole evaluation
  is that of the same query without a namespace. Likewise the kind block keeps every
  element when the query's kind is the empty string.
\<close>

theorem empty_namespace_filters_nothing:
  "(namespace q = Some [] \<longrightarrow>
      namespace_block q ml = (None, ml)
      \<and> apply_query_to_models q ml = apply_query_to_models (q\<lparr>namespace := None\<rparr>) ml)
   \<and> (kind q = Some [] \<longrightarrow> kind_block q ml = (None, ml))"
proof (intro conjI impI)
  assume ns: "namespace q = Some []"
  then show "namespace_block q ml = (None, ml)"
    by (simp add: namespace_block_def)
  have "namespace_block q = namespace_block (q\<lparr>namespace := None\<rparr>)"
    using ns by (simp add: fun_eq_iff namespace_block_def)
  moreover have "kind_block (q\<lparr>namespace := None\<rparr>) = kind_block q"
    "filters_block (q\<lparr>namespace := None\<rparr>) = filters_block q"
    "order_block (q\<lparr>namespace := None\<rparr>) = order_block q"
    "limit_block (q\<lparr>namespace := None\<rparr>) = limit_block q"
    by (simp_all add: fun_eq_iff kind_block_def filters_block_def order_block_def
        limit_block_def)
  ultimately show
    "apply_query_to_models q ml = apply_query_to_models (q\<lparr>namespace := None\<rparr>) ml"
    by (simp add: apply_query_to_models_def)
next
  assume "kind q = Some []"
  then show "kind_block q ml = (None, ml)"
    by (simp add: kind_block_def)
qed

theorem empty_namespace_filters_nothing_witness:
  "namespace_block (query_A\<lparr>namespace := Some []\<rparr>) [entity_A 2 5, Model unsaved_A, NonModel]
     = (None, [entity_A 2 5, Model unsaved_A, NonModel])
   \<and> kind_block (query_A\<lparr>kind := Some []\<rparr>) [entity_A 2 5, Model unsaved_A, NonModel]
     = (None, [entity_A 2 5, Model unsaved_A, NonModel])
   \<and> fst (namespace_block (query_A\<lparr>namespace := Some ''n''\<rparr>)
       [entity_A 2 5, Model unsaved_A, NonModel]) = Some (AttributeError ''namespace'')"
  using empty_namespace_filters_nothing
      [of "query_A\<lparr>namespace := Some []\<rparr>" "[entity_A 2 5, Model unsaved_A, NonModel]"]
    empty_namespace_filters_nothing
      [of "query_A\<lparr>kind := Some []\<rparr>" "[entity_A 2 5, Model unsaved_A, NonModel]"]
  by (simp add: query_A_def namespace_block_def key_namespace_of_def entity_A_def model_A_def
      key_A_def unsaved_A_def assign_all_def)

section \<open>The limit\<close>

text \<open>
  Claim C7, as the spec states it, fails for the limit 0: the block is guarded by the
  truth value of the limit, so a limit of 0 truncates nothing, as an absent one.
\<close>

theorem zero_limit_counterexample:
  "limit (query_A\<lparr>limit := Some 0\<rparr>) = Some 0
   \<and> apply_query_to_models (query_A\<lparr>limit := Some 0\<rparr>) [entity_A 2 5, entity_A 1 5]
     = (None, [entity_A 2 5, entity_A 1 5])
   \<and> \<not> length (snd (apply_query_to_models (query_A\<lparr>limit := Some 0\<rparr>)
           [entity_A 2 5, entity_A 1 5])) \<le> nat 0"
  by (simp add: apply_query_to_models_def query_A_def kind_block_def namespace_block_def
      filters_block_def order_block_def limit_block_def assign_all_def get_model_kind_def
      entity_A_def model_A_def class_A_def)

text \<open>
  Claim C7, amended. For a limit \<open>n > 0\<close> the evaluation is the evaluation of the same
  query without a limit, followed by keeping the first \<open>n\<close> elements of the list as it
  then is (filtered and sorted); so at most \<open>n\<close> elements are left. When an earlier
  block raises, the limit changes nothing.
\<close>

theorem positive_limit_truncates:
  assumes "limit q = Some n" and "0 < n"
  shows "apply_query_to_models q ml =
           (case apply_query_to_models (q\<lparr>limit := None\<rparr>) ml of
              (None, zs) \<Rightarrow> (None, take (nat n) zs)
            | (Some e, zs) \<Rightarrow> (Some e, zs))
         \<and> (fst (apply_query_to_models q ml) = None \<longrightarrow>
              length (snd (apply_query_to_models q ml)) \<le> nat n)"
proof -
  let ?front = "[kind_block q, namespace_block q, filters_block q, order_block q]"
  have blocks: "kind_block (q\<lparr>limit := None\<rparr>) = kind_block q"
    "namespace_block (q\<lparr>limit := None\<rparr>) = namespace_block q"
    "filters_block (q\<lparr>limit := None\<rparr>) = filters_block q"
    "order_block (q\<lparr>limit := None\<rparr>) = order_block q"
    by (simp_all add: fun_eq_iff kind_block_def namespace_block_def filters_block_def
        order_block_def)
  have lim: "limit_block q = (\<lambda>ml. (None, take (nat n) ml))"
    using assms by (simp add: fun_eq_iff limit_block_def del_from_def)
  have nolim: "limit_block (q\<lparr>limit := None\<rparr>) = (\<lambda>ml. (None, ml))"
    by (simp add: fun_eq_iff limit_block_def)
  have with_limit: "run_steps (?front @ [limit_block q]) ml =
      (case run_steps ?front ml of (Some e, zs) \<Rightarrow> (Some e, zs)
       | (None, zs) \<Rightarrow> (None, take (nat n) zs))"
    by (simp only: run_steps_append lim)
  have without: "run_steps (?front @ [limit_block (q\<lparr>limit := None\<rparr>)]) ml = run_steps ?front ml"
    by (simp only: run_steps_append nolim) (simp split: prod.splits option.splits)
  have eq: "apply_query_to_models q ml =
           (case apply_query_to_models (q\<lparr>limit := None\<rparr>) ml of
              (None, zs) \<Rightarrow> (None, take (nat n) zs)
            | (Some e, zs) \<Rightarrow> (Some e, zs))"
  proof (cases "kind q = None \<and> order q \<noteq> Some [''__key__'']")
    case True
    then show ?thesis by (simp add: apply_query_to_models_def)
  next
    case False
    then have v: "\<not> (kind (q\<lparr>limit := None\<rparr>) = None
        \<and> order (q\<lparr>limit := None\<rparr>) \<noteq> Some [''__key__''])"
      by simp
    have "apply_query_to_models q ml = run_steps (?front @ [limit_block q]) ml"
      and "apply_query_to_models (q\<lparr>limit := None\<rparr>) ml
           = run_steps (?front @ [limit_block (q\<lparr>limit := None\<rparr>)]) ml"
      using apply_query_to_models_valid[OF False, of ml]
        apply_query_to_models_valid[OF v, of ml]
      by (simp_all only: blocks append.simps)
    then show ?thesis
      by (simp only: with_limit without split: prod.splits option.splits)
  qed
  have "fst (apply_query_to_models q ml) = None \<Longrightarrow>
           length (snd (apply_query_to_models q ml)) \<le> nat n"
    by (simp only: eq) (simp split: prod.splits option.splits)
  with eq show ?thesis by blast
qed

theorem positive_limit_truncates_witness:
  "apply_query_to_models (query_A\<lparr>limit := Some 1\<rparr>) [entity_A 2 5, entity_A 1 5]
     = (None, [entity_A 2 5])"
  using positive_limit_truncates
      [of "query_A\<lparr>limit := Some 1\<rparr>" 1 "[entity_A 2 5, entity_A 1 5]"]
  by (simp add: apply_query_to_models_def query_A_def kind_block_def namespace_block_def
      filters_block_def order_block_def limit_block_def assign_all_def get_model_kind_def
      entity_A_def model_A_def class_A_def)

section \<open>Flattening filters and orders\<close>


lemma triples_Nil [simp]: "triples [] = []"
  by (simp add: triples_def)

lemma triples_append [simp]: "triples (ps @ qs) = triples ps @ triples qs"
  by (simp add: triples_def)

lemma triples_PropertyFilter [simp]:
  "triples (PropertyFilter name opc v # ps) = flat_comparison (name, opc, v) # triples ps"
  by (simp add: triples_def)

lemma triples_PropertyRangeFilter [simp]:
  "triples (PropertyRangeFilter name s e # ps)
     = start_triples name s @ end_triples name e @ triples ps"
  by (auto simp: triples_def start_triples_def end_triples_def flat_comparison_def
      split: option.splits)



















text \<open>
  Claim C4. Whenever the conversion of a native query returns a flat query: its order
  is exactly \<^verbatim>\<open>('__key__',)\<close> if the native query has neither a kind nor an order. If
  the native query has an order, the flat order is that order and not the default: a
  single property order yields the one key, a composite order yields one key per
  property order in the original left-to-right priority, and a key is the property name,
  with \<^verbatim>\<open>-\<close> in front for the descending direction. The evaluation reads such a key
  back as the same property in the same direction (for a property name that does not
  itself begin with \<^verbatim>\<open>-\<close>). With a kind and no order the flat order stays absent. Kind
  and namespace are copied, no limit is set, and the conversion returns a flat query
  whenever the native query has no filters or has filters that flatten.
\<close>

theorem default_order_rule:
  "(get_beam_query_from_ndb_query q = Inr bq \<longrightarrow>
      (ndb_kind q = None \<and> ndb_orders q = None \<longrightarrow> order bq = Some [''__key__''])
      \<and> (\<forall>po. ndb_orders q = Some (PropertyOrder po) \<longrightarrow>
            order bq = Some [if direction po = DESCENDING then CHR ''-'' # prop_name po
                             else prop_name po])
      \<and> (\<forall>pos. ndb_orders q = Some (CompositeOrder pos) \<longrightarrow>
            order bq = Some (map (\<lambda>po. if direction po = DESCENDING
                                         then CHR ''-'' # prop_name po else prop_name po) pos))
      \<and> (\<forall>orders. ndb_orders q = Some orders \<longrightarrow>
            order bq = Some (get_beam_order_from_ndb_order orders))
      \<and> (ndb_kind q \<noteq> None \<and> ndb_orders q = None \<longrightarrow> order bq = None)
      \<and> kind bq = ndb_kind q \<and> namespace bq = ndb_namespace q \<and> limit bq = None)
   \<and> (\<forall>po :: property_order. \<not> startswith (prop_name po) ''-'' \<longrightarrow>
        order_name (if direction po = DESCENDING then CHR ''-'' # prop_name po
                    else prop_name po) = prop_name po
        \<and> order_descending (if direction po = DESCENDING then CHR ''-'' # prop_name po
                             else prop_name po) = (direction po = DESCENDING))
   \<and> (ndb_filters q = None \<longrightarrow>
        (\<exists>bq. get_beam_query_from_ndb_query q = Inr bq \<and> filters bq = None))
   \<and> (\<forall>node fs. ndb_filters q = Some node
          \<and> get_beam_filters_from_ndb_filter_node node = Inr fs \<longrightarrow>
        (\<exists>bq. get_beam_query_from_ndb_query q = Inr bq \<and> filters bq = Some fs))"
proof -
  have readback: "\<not> startswith (prop_name po) ''-'' \<longrightarrow>
        order_name (if direction po = DESCENDING then CHR ''-'' # prop_name po
                    else prop_name po) = prop_name po
        \<and> order_descending (if direction po = DESCENDING then CHR ''-'' # prop_name po
                             else prop_name po) = (direction po = DESCENDING)"
    for po :: property_order
    by (simp add: order_name_def order_descending_def startswith_def)
  have conv: "get_beam_query_from_ndb_query q = Inr bq \<longrightarrow>
      (ndb_kind q = None \<and> ndb_orders q = None \<longrightarrow> order bq = Some [''__key__''])
      \<and> (\<forall>po. ndb_orders q = Some (PropertyOrder po) \<longrightarrow>
            order bq = Some [if direction po = DESCENDING then CHR ''-'' # prop_name po
                             else prop_name po])
      \<and> (\<forall>pos. ndb_orders q = Some (CompositeOrder pos) \<longrightarrow>
            order bq = Some (map (\<lambda>po. if direction po = DESCENDING
                                         then CHR ''-'' # prop_name po else prop_name po) pos))
      \<and> (\<forall>orders. ndb_orders q = Some orders \<longrightarrow>
            order bq = Some (get_beam_order_from_ndb_order orders))
      \<and> (ndb_kind q \<noteq> None \<and> ndb_orders q = None \<longrightarrow> order bq = None)
      \<and> kind bq = ndb_kind q \<and> namespace bq = ndb_namespace q \<and> limit bq = None"
    by (auto simp: get_beam_query_from_ndb_query_def get_beam_order_from_ndb_order_def Let_def
        split: option.splits sum.splits)
  have total: "(ndb_filters q = None \<longrightarrow>
        (\<exists>bq. get_beam_query_from_ndb_query q = Inr bq \<and> filters bq = None))
   \<and> (\<forall>node fs. ndb_filters q = Some node
          \<and> get_beam_filters_from_ndb_filter_node node = Inr fs \<longrightarrow>
        (\<exists>bq. get_beam_query_from_ndb_query q = Inr bq \<and> filters bq = Some fs))"
    by (auto simp: get_beam_query_from_ndb_query_def Let_def split: option.splits sum.splits)
  from readback conv total show ?thesis by blast
qed

theorem default_order_rule_witness:
  "get_beam_query_from_ndb_query query_None
     = Inr \<lparr>kind = None, namespace = None, filters = None, order = Some [''__key__''],
            limit = None\<rparr>
   \<and> get_beam_query_from_ndb_query
       (query_None\<lparr>ndb_orders := Some (CompositeOrder
          [\<lparr>prop_name = ''score'', direction = DESCENDING\<rparr>,
           \<lparr>prop_name = ''id'', direction = ASCENDING\<rparr>])\<rparr>)
     = Inr \<lparr>kind = None, namespace = None, filters = None, order = Some [''-score'', ''id''],
            limit = None\<rparr>
   \<and> order_name ''-score'' = ''score'' \<and> order_descending ''-score''"
  using default_order_rule
      [of query_None
          "\<lparr>kind = None, namespace = None, filters = None, order = Some [''__key__''],
            limit = None\<rparr>"]
    default_order_rule
      [of "query_None\<lparr>ndb_orders := Some (CompositeOrder
          [\<lparr>prop_name = ''score'', direction = DESCENDING\<rparr>,
           \<lparr>prop_name = ''id'', direction = ASCENDING\<rparr>])\<rparr>"
          "\<lparr>kind = None, namespace = None, filters = None, order = Some [''-score'', ''id''],
            limit = None\<rparr>"]
  by (simp add: query_None_def get_beam_query_from_ndb_query_def
      get_beam_order_from_ndb_order_def order_name_def order_descending_def startswith_def)

section \<open>The round trip of an entity\<close>

text \<open>
  Claim C2, as the spec states it, fails in two ways, both for an entity whose type is
  registered. An entity that has no key yet makes the conversion to the flat entity
  raise, since that reads the path of the key. An entity whose key is incomplete (its id
  is \<^verbatim>\<open>None\<close>) is converted to a flat entity, but the conversion back raises, since the
  client key rejects the path.
\<close>

theorem round_trip_without_key_counterexample:
  "[''A'' \<mapsto> class_A] (get_kind (model_type unsaved_A)) = Some (model_type unsaved_A)
   \<and> round_trip [''A'' \<mapsto> class_A] ''oppia'' unsaved_A = Inl (AttributeError ''flat'')
   \<and> [''A'' \<mapsto> class_A] (get_kind (model_type incomplete_A)) = Some (model_type incomplete_A)
   \<and> round_trip [''A'' \<mapsto> class_A] ''oppia'' incomplete_A
       = Inl (ValueError ''ID/name was not a string or integer.'')"
  by (simp add: round_trip_def get_beam_entity_from_model_def get_model_from_beam_entity_def
      set_properties_def to_dict_def to_client_key_def flat_def unsaved_A_def incomplete_A_def
      class_A_def)

text \<open>
  Claim C2, amended. For every entity that has a complete key (of the kind of its type,
  as the entity framework keeps it) and whose type is registered under that kind,
  converting to the flat entity and back yields an entity of the same type, hence the
  same kind, with the same id and the same property values.
\<close>

theorem round_trip_with_key:
  assumes "key m = Some k"
    and "complete k"
    and "key_kind k = get_kind (model_type m)"
    and "kind_map (get_kind (model_type m)) = Some (model_type m)"
  shows "\<exists>m'. round_trip kind_map OPPIA_PROJECT_ID m = Inr m'
           \<and> get_model_kind (Model m') = get_model_kind (Model m)
           \<and> get_model_id (Model m') = get_model_id (Model m)
           \<and> properties m' = properties m
           \<and> model_type m' = model_type m"
proof -
  from assms(2) have ids: "\<not> list_ex (\<lambda>(kd, i). i = NoId) (flat k)"
    by (auto simp: complete_def complete_id_def list_all_iff list_ex_iff)
  from assms(2) have own: "key_id k \<noteq> NoId" "key_id k \<noteq> IntId 0"
    by (auto simp: complete_def complete_id_def flat_def)
  have "rev (flat k) = (key_kind k, key_id k) # rev (parent_pairs k)"
    by (simp add: flat_def)
  with ids own have "to_client_key \<lparr>path_elements = flat k, project = Some OPPIA_PROJECT_ID,
          beam_namespace = None\<rparr> = Inr (key_kind k, key_id k)"
    by (simp add: to_client_key_def id_or_name_def)
  with assms have "round_trip kind_map OPPIA_PROJECT_ID m
      = Inr (new_model (model_type m) (key_id k) (properties m))"
    by (simp add: round_trip_def get_beam_entity_from_model_def get_model_from_beam_entity_def
        set_properties_def to_dict_def lookup_model_def)
  moreover have "get_model_id (Model (new_model (model_type m) (key_id k) (properties m)))
      = get_model_id (Model m)"
    using assms(1) own by (simp add: get_model_id_def new_model_def)
  ultimately show ?thesis
    by (simp add: get_model_kind_def new_model_def)
qed

theorem round_trip_with_key_witness:
  "round_trip [''A'' \<mapsto> class_A] ''oppia'' (model_A 2 5) = Inr (model_A 2 5)"
proof -
  have "complete (key_A 2)"
    by (simp add: complete_def complete_id_def flat_def key_A_def)
  with round_trip_with_key [of "model_A 2 5" "key_A 2" "[''A'' \<mapsto> class_A]" "''oppia''"]
  show ?thesis
    by (simp add: round_trip_def get_beam_entity_from_model_def
        get_model_from_beam_entity_def set_properties_def to_dict_def lookup_model_def
        to_client_key_def id_or_name_def flat_def new_model_def model_A_def key_A_def
        class_A_def)
qed

section \<open>The predicate filter\<close>

text \<open>
  The operator lookup of the evaluation yields, for each of the five symbols, the
  relation that symbol means, and raises for every other string.
\<close>

lemma get_operator_Inr:
  "get_operator opsym = Inr opr \<Longrightarrow> supported opsym \<and> (\<forall>a b. opr a b = holds opsym a b)"
  by (auto simp: get_operator_def supported_def holds_def operator_lt_def operator_le_def
      operator_eq_def operator_ge_def operator_gt_def split: if_splits)

lemma get_operator_supported:
  "supported opsym \<Longrightarrow> \<exists>opr. get_operator opsym = Inr opr"
  by (auto simp: get_operator_def supported_def)

lemma get_operator_unsupported:
  "\<not> supported opsym \<Longrightarrow>
     get_operator opsym = Inl (ValueError (''Unsupported comparison operator: '' @ opsym))"
  by (auto simp: get_operator_def supported_def)

lemma all_filters_Inr:
  "all_filters m fs = Inr b \<Longrightarrow> b = list_all (satisfies m) fs"
proof (induction fs arbitrary: b)
  case Nil
  then show ?case by simp
next
  case (Cons f fs)
  obtain name c v where f: "f = (name, c, v)" by (cases f)
  from Cons f show ?case
    by (auto simp: satisfies_def split: sum.splits if_splits dest!: get_operator_Inr)
qed

lemma all_filters_evaluable:
  "list_all (evaluable m) fs \<Longrightarrow> all_filters m fs = Inr (list_all (satisfies m) fs)"
proof (induction fs)
  case Nil
  then show ?case by simp
next
  case (Cons f fs)
  obtain name c v where f: "f = (name, c, v)" by (cases f)
  from Cons.prems have ev: "evaluable m f" and rest: "list_all (evaluable m) fs"
    by simp_all
  from ev f have "supported c" and "\<exists>x. get_model_property m name = Inr x"
    by (auto simp: evaluable_def split: sum.splits)
  with get_operator_supported[of c] obtain opr x where opr: "get_operator c = Inr opr"
    and x: "get_model_property m name = Inr x"
    by blast
  from get_operator_Inr[OF opr] have "opr x v = holds c x v" by simp
  with Cons.IH[OF rest] opr x f show ?case
    by (simp add: satisfies_def)
qed

lemma comprehension_Inr:
  "comprehension cond ml = Inr ys \<Longrightarrow>
     ys = filter (\<lambda>m. cond m = Inr True) ml \<and> (\<forall>m\<in>set ml. \<exists>b. cond m = Inr b)"
  by (induction ml arbitrary: ys) (auto split: sum.splits)

lemma comprehension_total:
  "(\<And>m. m \<in> set ml \<Longrightarrow> cond m = Inr (p m)) \<Longrightarrow> comprehension cond ml = Inr (filter p ml)"
  by (induction ml) auto

text \<open>
  Claim C6. For a query with a non-empty filter list, whenever the filter block
  completes the list holds exactly the entities that satisfy all the filters, in their
  original order; it completes whenever every filter can be evaluated on every entity;
  and when it raises the list is left as it was. A filter whose operator is none of the
  five symbols makes the block raise as soon as it is reached. The value a filter
  compares is the one the property accessor yields, so \<^verbatim>\<open>id\<close> and \<^verbatim>\<open>__key__\<close> are
  filter targets like any property name.
\<close>

theorem filters_block_conjunction:
  assumes "filters q = Some fs" and "fs \<noteq> []"
  shows "(filters_block q ml = (None, ys) \<longrightarrow>
            ys = filter (\<lambda>m. list_all (satisfies m) fs) ml)
         \<and> ((\<forall>m\<in>set ml. list_all (evaluable m) fs) \<longrightarrow>
            filters_block q ml = (None, filter (\<lambda>m. list_all (satisfies m) fs) ml))
         \<and> (fst (filters_block q ml) \<noteq> None \<longrightarrow> snd (filters_block q ml) = ml)
         \<and> (ml \<noteq> [] \<and> \<not> supported (fst (snd (hd fs))) \<longrightarrow>
            filters_block q ml
              = (Some (ValueError (''Unsupported comparison operator: '' @ fst (snd (hd fs)))),
                 ml))"
proof (intro conjI impI)
  have block: "filters_block q ml = assign_all (comprehension (\<lambda>m. all_filters m fs) ml) ml"
    using assms by (simp add: filters_block_def)
  {
    assume "filters_block q ml = (None, ys)"
    then have c: "comprehension (\<lambda>m. all_filters m fs) ml = Inr ys"
      by (auto simp: block assign_all_def split: sum.splits)
    from comprehension_Inr[OF c]
    have ys: "ys = filter (\<lambda>m. all_filters m fs = Inr True) ml"
      and total: "\<forall>m\<in>set ml. \<exists>b. all_filters m fs = Inr b" by simp_all
    have "filter (\<lambda>m. all_filters m fs = Inr True) ml
        = filter (\<lambda>m. list_all (satisfies m) fs) ml"
    proof (rule filter_cong[OF refl])
      fix m assume "m \<in> set ml"
      with total obtain b where "all_filters m fs = Inr b" by blast
      with all_filters_Inr[OF this]
      show "(all_filters m fs = Inr True) = list_all (satisfies m) fs" by auto
    qed
    with ys show "ys = filter (\<lambda>m. list_all (satisfies m) fs) ml" by simp
  }
  {
    assume "\<forall>m\<in>set ml. list_all (evaluable m) fs"
    then have "comprehension (\<lambda>m. all_filters m fs) ml
        = Inr (filter (\<lambda>m. list_all (satisfies m) fs) ml)"
      by (intro comprehension_total) (simp add: all_filters_evaluable)
    then show "filters_block q ml = (None, filter (\<lambda>m. list_all (satisfies m) fs) ml)"
      by (simp add: block assign_all_def)
  }
  {
    assume "fst (filters_block q ml) \<noteq> None"
    then show "snd (filters_block q ml) = ml"
      by (auto simp: block assign_all_def split: sum.splits)
  }
  {
    assume a: "ml \<noteq> [] \<and> \<not> supported (fst (snd (hd fs)))"
    from assms(2) obtain name c v rest where fs: "fs = (name, c, v) # rest"
      by (cases fs) auto
    from a obtain m ms where ml: "ml = m # ms" by (cases ml) auto
    from a fs have "get_operator c
        = Inl (ValueError (''Unsupported comparison operator: '' @ c))"
      by (simp add: get_operator_unsupported)
    then have "all_filters m fs
        = Inl (ValueError (''Unsupported comparison operator: '' @ c))"
      by (simp only: fs all_filters.simps sum.case)
    then have "comprehension (\<lambda>m. all_filters m fs) ml
        = Inl (ValueError (''Unsupported comparison operator: '' @ c))"
      by (simp only: ml comprehension.simps sum.case)
    moreover have "fst (snd (hd fs)) = c" by (simp add: fs)
    ultimately show "filters_block q ml
        = (Some (ValueError (''Unsupported comparison operator: '' @ fst (snd (hd fs)))), ml)"
      by (simp only: block assign_all_def sum.case)
  }
qed

theorem filters_block_conjunction_witness:
  "filters_block (query_A\<lparr>filters := Some [(''score'', ''='', PyInt 5)]\<rparr>)
      [entity_A 2 5, entity_A 1 5, entity_A 3 9]
     = (None, [entity_A 2 5, entity_A 1 5])
   \<and> filters_block
      (query_A\<lparr>filters := Some [(''id'', ''>'', PyInt 1), (''__key__'', ''<='', PyKey (key_A 2))]\<rparr>)
      [entity_A 2 5, entity_A 1 5, entity_A 3 9]
     = (None, [entity_A 2 5])
   \<and> filters_block (query_A\<lparr>filters := Some [(''score'', ''!='', PyInt 5)]\<rparr>)
      [entity_A 2 5, entity_A 1 5, entity_A 3 9]
     = (Some (ValueError ''Unsupported comparison operator: !=''),
        [entity_A 2 5, entity_A 1 5, entity_A 3 9])"
  using filters_block_conjunction
      [of "query_A\<lparr>filters := Some [(''score'', ''='', PyInt 5)]\<rparr>"
          "[(''score'', ''='', PyInt 5)]"
          "[entity_A 2 5, entity_A 1 5, entity_A 3 9]" "[]"]
    filters_block_conjunction
      [of "query_A\<lparr>filters := Some [(''id'', ''>'', PyInt 1), (''__key__'', ''<='', PyKey (key_A 2))]\<rparr>"
          "[(''id'', ''>'', PyInt 1), (''__key__'', ''<='', PyKey (key_A 2))]"
          "[entity_A 2 5, entity_A 1 5, entity_A 3 9]" "[]"]
    filters_block_conjunction
      [of "query_A\<lparr>filters := Some [(''score'', ''!='', PyInt 5)]\<rparr>"
          "[(''score'', ''!='', PyInt 5)]"
          "[entity_A 2 5, entity_A 1 5, entity_A 3 9]" "[]"]
  by (simp add: ex_defs satisfies_def evaluable_def holds_def supported_def
      get_model_property_def get_model_id_def get_model_key_def getattr_def key_value_def
      key_tuple_def flat_def)

section \<open>Stable sorting by a total preorder\<close>

text \<open>
  The insertion sort keeps the elements, and sorts them when the comparison is a total
  preorder.
\<close>

lemma stable_sort_by_Nil [simp]: "stable_sort_by r [] = []"
  by (simp add: stable_sort_by_def)

lemma stable_sort_by_Cons [simp]:
  "stable_sort_by r (x # xs) = insort_by r x (stable_sort_by r xs)"
  by (simp add: stable_sort_by_def)

lemma set_insort_by [simp]: "set (insort_by r x ys) = insert x (set ys)"
  by (induction ys) auto

lemma set_stable_sort_by [simp]: "set (stable_sort_by r xs) = set xs"
  by (induction xs) auto

lemma length_insort_by [simp]: "length (insort_by r x ys) = Suc (length ys)"
  by (induction ys) auto

lemma length_stable_sort_by [simp]: "length (stable_sort_by r xs) = length xs"
  by (induction xs) auto

lemma total_preorderD:
  assumes "total_preorder r"
  shows "r a b \<or> r b a" and "r a b \<Longrightarrow> r b c \<Longrightarrow> r a c"
  using assms unfolding total_preorder_def by blast+

lemma sorted_wrt_insort_by:
  assumes "total_preorder r" "sorted_wrt r ys"
  shows "sorted_wrt r (insort_by r x ys)"
  using assms(2)
proof (induction ys)
  case Nil
  then show ?case by simp
next
  case (Cons y ys)
  show ?case
  proof (cases "r x y")
    case True
    with Cons.prems total_preorderD(2)[OF assms(1)] show ?thesis by auto
  next
    case False
    with total_preorderD(1)[OF assms(1), of x y] have "r y x" by blast
    with Cons False show ?thesis by auto
  qed
qed

lemma sorted_wrt_stable_sort_by:
  "total_preorder r \<Longrightarrow> sorted_wrt r (stable_sort_by r xs)"
  by (induction xs) (simp_all add: sorted_wrt_insort_by)

text \<open>
  Sorting by one comparison a list already sorted by another sorts it by their
  lexicographic combination: the later pass decides, the earlier one breaks its ties.
\<close>

lemma insort_by_cong:
  "(\<And>z. z \<in> set zs \<Longrightarrow> r1 x z = r2 x z) \<Longrightarrow> insort_by r1 x zs = insort_by r2 x zs"
  by (induction zs) auto

lemma insort_by_commute:
  assumes "r1 a b \<longleftrightarrow> \<not> r2 b a"
    and "\<And>z. r1 a z \<Longrightarrow> \<not> r2 b z \<Longrightarrow> r1 a b"
    and "\<And>z. r2 b z \<Longrightarrow> \<not> r1 a z \<Longrightarrow> r2 b a"
  shows "insort_by r1 a (insort_by r2 b zs) = insort_by r2 b (insort_by r1 a zs)"
proof (induction zs)
  case Nil
  then show ?case using assms(1) by simp
next
  case (Cons z zs)
  then show ?case using assms by (cases "r1 a z"; cases "r2 b z") auto
qed

lemma total_preorder_lex_le:
  assumes "total_preorder r1" "total_preorder r2"
  shows "total_preorder (lex_le r1 r2)"
  unfolding total_preorder_def lex_le_def
  using total_preorderD[OF assms(1)] total_preorderD[OF assms(2)] by blast

lemma sort_insort_lex:
  assumes r1: "total_preorder r1" and r2: "total_preorder r2"
    and "sorted_wrt r2 ys"
  shows "stable_sort_by r1 (insort_by r2 x ys) = insort_by (lex_le r1 r2) x (stable_sort_by r1 ys)"
  using assms(3)
proof (induction ys)
  case Nil
  then show ?case by simp
next
  case (Cons y ys)
  note t1 = total_preorderD[OF r1] and t2 = total_preorderD[OF r2]
  show ?case
  proof (cases "r2 x y")
    case True
    have "\<And>z. z \<in> set (y # ys) \<Longrightarrow> r2 x z"
      using True Cons.prems t2(2) by auto
    then have "insort_by r1 x (stable_sort_by r1 (y # ys))
        = insort_by (lex_le r1 r2) x (stable_sort_by r1 (y # ys))"
      by (intro insort_by_cong) (auto simp: lex_le_def)
    with True show ?thesis by simp
  next
    case False
    then have yx: "r2 y x" using t2(1) by blast
    have below: "\<And>z. z \<in> set ys \<Longrightarrow> r2 y z" using Cons.prems by auto
    have ih: "stable_sort_by r1 (insort_by r2 x ys)
        = insort_by (lex_le r1 r2) x (stable_sort_by r1 ys)"
      using Cons by simp
    have c1: "insort_by r1 y (insort_by (lex_le r1 r2) x (stable_sort_by r1 ys))
        = insort_by (lex_le r1 r2) y (insort_by (lex_le r1 r2) x (stable_sort_by r1 ys))"
      by (intro insort_by_cong) (use yx below in \<open>auto simp: lex_le_def\<close>)
    have c2: "insort_by r1 y (stable_sort_by r1 ys)
        = insort_by (lex_le r1 r2) y (stable_sort_by r1 ys)"
      by (intro insort_by_cong) (use below in \<open>auto simp: lex_le_def\<close>)
    note tl = total_preorderD[OF total_preorder_lex_le[OF r1 r2]]
    have ne: "lex_le r1 r2 y x \<longleftrightarrow> \<not> lex_le r1 r2 x y"
      using False yx t1(1) by (auto simp: lex_le_def)
    have c3: "insort_by (lex_le r1 r2) y (insort_by (lex_le r1 r2) x (stable_sort_by r1 ys))
        = insort_by (lex_le r1 r2) x (insort_by (lex_le r1 r2) y (stable_sort_by r1 ys))"
    proof (rule insort_by_commute)
      show "lex_le r1 r2 y x \<longleftrightarrow> \<not> lex_le r1 r2 x y" by (rule ne)
    next
      fix z assume "lex_le r1 r2 y z" "\<not> lex_le r1 r2 x z"
      then show "lex_le r1 r2 y x" using tl by blast
    next
      fix z assume "lex_le r1 r2 x z" "\<not> lex_le r1 r2 y z"
      then show "lex_le r1 r2 x y" using tl by blast
    qed
    from False have "stable_sort_by r1 (insort_by r2 x (y # ys))
        = insort_by r1 y (stable_sort_by r1 (insort_by r2 x ys))" by simp
    also have "\<dots> = insort_by (lex_le r1 r2) x (insort_by r1 y (stable_sort_by r1 ys))"
      using ih c1 c2 c3 by simp
    finally show ?thesis by simp
  qed
qed

lemma stable_sort_by_twice:
  assumes "total_preorder r1" "total_preorder r2"
  shows "stable_sort_by r1 (stable_sort_by r2 xs) = stable_sort_by (lex_le r1 r2) xs"
  by (induction xs)
     (simp_all add: sort_insort_lex[OF assms] sorted_wrt_stable_sort_by[OF assms(2)])

text \<open>
  Reversing, sorting and reversing again is the stable sort by the converse comparison.
\<close>

lemma insort_by_append_last:
  "r x w \<Longrightarrow> insort_by r x (zs @ [w]) = insort_by r x zs @ [w]"
  by (induction zs) auto

lemma insort_by_none:
  "(\<And>z. z \<in> set zs \<Longrightarrow> \<not> r x z) \<Longrightarrow> insort_by r x zs = zs @ [x]"
  by (induction zs) auto

lemma foldr_insort_by_last:
  assumes "total_preorder r"
  shows "foldr (insort_by (\<lambda>a b. r b a)) ys [x]
      = insort_by (\<lambda>a b. \<not> r a b) x (foldr (insort_by (\<lambda>a b. r b a)) ys [])"
proof (induction ys)
  case Nil
  then show ?case by simp
next
  case (Cons y ys)
  note t = total_preorderD[OF assms]
  have "insort_by (\<lambda>a b. r b a) y (insort_by (\<lambda>a b. \<not> r a b) x (foldr (insort_by (\<lambda>a b. r b a)) ys []))
      = insort_by (\<lambda>a b. \<not> r a b) x (insort_by (\<lambda>a b. r b a) y (foldr (insort_by (\<lambda>a b. r b a)) ys []))"
    by (rule insort_by_commute) (use t in blast)+
  with Cons show ?case by simp
qed

lemma rev_insort_by:
  assumes "total_preorder r" "sorted_wrt r ws"
  shows "rev (insort_by r x ws) = insort_by (\<lambda>a b. \<not> r a b) x (rev ws)"
  using assms(2)
proof (induction ws)
  case Nil
  then show ?case by simp
next
  case (Cons w ws)
  note t = total_preorderD[OF assms(1)]
  show ?case
  proof (cases "r x w")
    case True
    have "\<And>z. z \<in> set (rev ws @ [w]) \<Longrightarrow> \<not> \<not> r x z"
      using True Cons.prems t(2) by auto
    then have "insort_by (\<lambda>a b. \<not> r a b) x (rev ws @ [w]) = (rev ws @ [w]) @ [x]"
      by (rule insort_by_none)
    with True show ?thesis by simp
  next
    case False
    then show ?thesis using Cons by (simp add: insort_by_append_last)
  qed
qed

lemma stable_sort_by_rev:
  assumes "total_preorder r"
  shows "stable_sort_by (\<lambda>a b. r b a) (rev xs) = rev (stable_sort_by r xs)"
proof (induction xs)
  case Nil
  then show ?case by simp
next
  case (Cons x xs)
  have "stable_sort_by (\<lambda>a b. r b a) (rev (x # xs)) = foldr (insort_by (\<lambda>a b. r b a)) (rev xs) [x]"
    by (simp add: stable_sort_by_def)
  also have "\<dots> = insort_by (\<lambda>a b. \<not> r a b) x (stable_sort_by (\<lambda>a b. r b a) (rev xs))"
    by (simp add: foldr_insort_by_last[OF assms] stable_sort_by_def)
  also have "\<dots> = rev (insort_by r x (stable_sort_by r xs))"
    by (simp add: Cons rev_insort_by[OF assms sorted_wrt_stable_sort_by[OF assms]])
  finally show ?case by simp
qed

lemma rev_stable_sort_by_rev:
  assumes "total_preorder r"
  shows "rev (stable_sort_by r (rev xs)) = stable_sort_by (\<lambda>a b. r b a) xs"
  using stable_sort_by_rev[OF assms, of "rev xs"] by simp


text \<open>
  Sorting decorated elements by their decoration and stripping it is sorting the elements
  by the comparison of their decorations.
\<close>

lemma stable_sort_by_True: "stable_sort_by (\<lambda>a b. True) xs = xs"
proof (induction xs)
  case Nil
  then show ?case by simp
next
  case (Cons x xs)
  then show ?case by (cases xs) simp_all
qed

lemma insort_by_map:
  "insort_by r (g x) (map g ys) = map g (insort_by (\<lambda>a b. r (g a) (g b)) x ys)"
  by (induction ys) auto

lemma stable_sort_by_map:
  "stable_sort_by r (map g xs) = map g (stable_sort_by (\<lambda>a b. r (g a) (g b)) xs)"
  by (induction xs) (simp_all add: insort_by_map)

lemma decorate_sort_undecorate:
  "map snd (stable_sort_by r (zip (map k xs) xs))
     = stable_sort_by (\<lambda>a b. r (k a, a) (k b, b)) xs"
proof -
  have "zip (map k xs) xs = map (\<lambda>x. (k x, x)) xs"
    by (induction xs) auto
  then show ?thesis
    by (simp add: stable_sort_by_map comp_def)
qed

text \<open>
  The insertion sort is stable: the elements that compare equal to a given one keep
  their order.
\<close>

lemma mset_insort_by: "mset (insort_by r x ys) = add_mset x (mset ys)"
  by (induction ys) auto

lemma mset_stable_sort_by: "mset (stable_sort_by r xs) = mset xs"
  by (induction xs) (simp_all add: mset_insort_by)

lemma filter_insort_by_equiv:
  assumes "total_preorder r"
  shows "filter (\<lambda>b. r a b \<and> r b a) (insort_by r x ys)
      = (if r a x \<and> r x a then x # filter (\<lambda>b. r a b \<and> r b a) ys
         else filter (\<lambda>b. r a b \<and> r b a) ys)"
proof (induction ys)
  case Nil
  then show ?case by simp
next
  case (Cons y ys)
  note t = total_preorderD[OF assms]
  show ?case
  proof (cases "r x y")
    case True
    then show ?thesis by simp
  next
    case False
    then have "\<not> (r a x \<and> r x a \<and> r a y \<and> r y a)" using t(2) by blast
    with False Cons show ?thesis by auto
  qed
qed

lemma stable_sort_by_stable:
  assumes "total_preorder r"
  shows "filter (\<lambda>b. r a b \<and> r b a) (stable_sort_by r xs) = filter (\<lambda>b. r a b \<and> r b a) xs"
  by (induction xs) (simp_all add: filter_insort_by_equiv[OF assms])

text \<open>
  A stable sort is determined by what it promises: a list with the same elements, sorted,
  in which elements that compare equal keep their order, is the list the insertion sort
  computes. So modelling \<^verbatim>\<open>list.sort\<close> by insertion loses nothing.
\<close>

lemma insort_by_between:
  "(\<And>u. u \<in> set as \<Longrightarrow> \<not> r x u) \<Longrightarrow> (\<And>b. b \<in> set bs \<Longrightarrow> r x b) \<Longrightarrow>
     insort_by r x (as @ bs) = as @ x # bs"
proof (induction as)
  case Nil
  then show ?case by (cases bs) simp_all
next
  case (Cons a as)
  then show ?case by simp
qed

lemma stable_sort_by_unique:
  assumes r: "total_preorder r"
    and "mset ys = mset xs"
    and "sorted_wrt r ys"
    and "\<And>a. filter (\<lambda>b. r a b \<and> r b a) ys = filter (\<lambda>b. r a b \<and> r b a) xs"
  shows "ys = stable_sort_by r xs"
  using assms(2-)
proof (induction xs arbitrary: ys)
  case Nil
  then show ?case by simp
next
  case (Cons x xs)
  note t = total_preorderD[OF r]
  have refl: "r x x" using t(1) by blast
  let ?E = "\<lambda>b. r x b \<and> r b x"
  from Cons.prems(3)[of x] refl
  have "filter ?E ys = x # filter ?E xs" by simp
  then obtain as bs where ys: "ys = as @ x # bs"
    and as: "\<forall>u\<in>set as. \<not> ?E u" and bs: "filter ?E xs = filter ?E bs"
    by (auto simp: filter_eq_Cons_iff)
  have sorted: "sorted_wrt r (as @ bs)"
    using Cons.prems(2) by (auto simp: ys sorted_wrt_append)
  have mset: "mset (as @ bs) = mset xs"
    using Cons.prems(1) by (simp add: ys)
  have stable: "filter (\<lambda>b. r a b \<and> r b a) (as @ bs) = filter (\<lambda>b. r a b \<and> r b a) xs" for a
  proof (cases "r a x \<and> r x a")
    case True
    then have same: "(\<lambda>b. r a b \<and> r b a) = ?E"
      using t(2) by (intro ext) blast
    with as have "filter (\<lambda>b. r a b \<and> r b a) as = []" by simp
    with bs same show ?thesis by simp
  next
    case False
    with Cons.prems(3)[of a] show ?thesis by (simp add: ys)
  qed
  from Cons.IH[OF mset sorted stable] have rest: "as @ bs = stable_sort_by r xs" .
  have before: "\<And>u. u \<in> set as \<Longrightarrow> \<not> r x u"
    using as Cons.prems(2) by (auto simp: ys sorted_wrt_append)
  have after: "\<And>b. b \<in> set bs \<Longrightarrow> r x b"
    using Cons.prems(2) by (auto simp: ys sorted_wrt_append)
  have "insort_by r x (as @ bs) = as @ x # bs"
    using before after by (rule insort_by_between)
  with rest show ?case by (simp add: ys)
qed

section \<open>The passes of the sort\<close>

text \<open>
  One pass of \<^verbatim>\<open>_sort_by_property_name\<close> on a list whose elements all have the key is
  the stable sort by that key; on any other list it raises and leaves the list as it
  was. The passes of an order, run in reverse priority, are the stable sort by the
  comparison of the whole order, and so is the lexicographic multi-key sort.
\<close>

lemma traverse_map:
  "(\<And>x. x \<in> set xs \<Longrightarrow> f x = Inr (g x)) \<Longrightarrow> traverse f xs = Inr (map g xs)"
  by (induction xs) auto

lemma traverse_fail:
  "x \<in> set xs \<Longrightarrow> f x = Inl e \<Longrightarrow> \<exists>e'. traverse f xs = Inl e'"
  by (induction xs) (auto split: sum.splits)

lemma total_preorder_not_above: "total_preorder (not_above :: pyval \<times> 'a \<Rightarrow> pyval \<times> 'a \<Rightarrow> bool)"
  by (auto simp: total_preorder_def not_above_def operator_lt_def)

lemma total_preorder_pass_le: "total_preorder (pass_le ord)"
  by (auto simp: total_preorder_def pass_le_def operator_lt_def)

lemma total_preorder_order_le: "total_preorder (order_le os)"
proof (induction os)
  case Nil
  then show ?case by (simp add: total_preorder_def)
next
  case (Cons ord os)
  have "order_le (ord # os) = lex_le (pass_le ord) (order_le os)"
    by (simp add: fun_eq_iff)
  with Cons total_preorder_pass_le show ?case
    by (simp add: total_preorder_lex_le)
qed

lemma has_key_iff:
  "has_key m ord \<longleftrightarrow>
     get_model_property m (order_name ord) = Inr (key_or_none (order_name ord) m)"
  by (simp add: has_key_def key_or_none_def split: sum.splits)

lemma not_has_key: "\<not> has_key m ord \<Longrightarrow> \<exists>e. get_model_property m (order_name ord) = Inl e"
  by (simp add: has_key_def split: sum.splits)

lemma sort_by_property_name_unfold:
  "sort_by_property_name ml ord =
     assign_all (list_sort (\<lambda>m. get_model_property m (order_name ord)) (order_descending ord) ml) ml"
  by (simp add: sort_by_property_name_def order_name_def order_descending_def)

lemma sort_by_property_name_pass:
  assumes "list_all (\<lambda>m. has_key m ord) ml"
  shows "sort_by_property_name ml ord = (None, stable_sort_by (pass_le ord) ml)"
proof -
  let ?k = "key_or_none (order_name ord)"
  have keys: "traverse (\<lambda>m. get_model_property m (order_name ord)) ml = Inr (map ?k ml)"
    using assms by (intro traverse_map) (simp add: list_all_iff has_key_iff)
  have asc: "map snd (stable_sort_by not_above (zip (map ?k ml) ml))
      = stable_sort_by (\<lambda>a b. \<not> operator_lt (?k b) (?k a)) ml"
    by (simp add: decorate_sort_undecorate not_above_def)
  have "rev (stable_sort_by not_above (rev (zip (map ?k ml) ml)))
      = stable_sort_by (\<lambda>a b. not_above b a) (zip (map ?k ml) ml)"
    by (rule rev_stable_sort_by_rev[OF total_preorder_not_above])
  then have desc: "map snd (rev (stable_sort_by not_above (rev (zip (map ?k ml) ml))))
      = stable_sort_by (\<lambda>a b. \<not> operator_lt (?k a) (?k b)) ml"
    by (simp add: decorate_sort_undecorate not_above_def)
  have le: "pass_le ord = (if order_descending ord
      then (\<lambda>a b. \<not> operator_lt (?k a) (?k b)) else (\<lambda>a b. \<not> operator_lt (?k b) (?k a)))"
    by (simp add: fun_eq_iff pass_le_def)
  show ?thesis
    by (simp add: sort_by_property_name_unfold list_sort_def keys assign_all_def asc desc le)
qed

lemma sort_by_property_name_fail:
  assumes "\<not> list_all (\<lambda>m. has_key m ord) ml"
  shows "\<exists>e. sort_by_property_name ml ord = (Some e, ml)"
proof -
  from assms obtain m where "m \<in> set ml" "\<not> has_key m ord"
    by (auto simp: list_all_iff)
  with not_has_key obtain e where "get_model_property m (order_name ord) = Inl e" by blast
  with \<open>m \<in> set ml\<close>
  obtain e' where "traverse (\<lambda>m. get_model_property m (order_name ord)) ml = Inl e'"
    using traverse_fail[of m ml "\<lambda>m. get_model_property m (order_name ord)" e] by blast
  then show ?thesis
    by (simp add: sort_by_property_name_unfold list_sort_def assign_all_def)
qed

lemma sortable_Cons:
  "sortable (ord # os) ml \<longleftrightarrow> list_all (\<lambda>m. has_key m ord) ml \<and> sortable os ml"
  by (auto simp: sortable_def list_all_iff)

lemma sortable_set: "set ml' = set ml \<Longrightarrow> sortable os ml' = sortable os ml"
  by (simp add: sortable_def list_all_iff)

lemma sort_passes:
  "(sortable os ml \<longrightarrow>
      run_steps (map (\<lambda>ord ml. sort_by_property_name ml ord) (rev os)) ml
        = (None, stable_sort_by (order_le os) ml))
   \<and> (\<not> sortable os ml \<longrightarrow>
      fst (run_steps (map (\<lambda>ord ml. sort_by_property_name ml ord) (rev os)) ml) \<noteq> None)"
proof (induction os)
  case Nil
  then show ?case by (simp add: sortable_def stable_sort_by_True list_all_iff)
next
  case (Cons ord os)
  let ?inner = "run_steps (map (\<lambda>ord ml. sort_by_property_name ml ord) (rev os)) ml"
  let ?sorted = "stable_sort_by (order_le os) ml"
  have steps: "run_steps (map (\<lambda>ord ml. sort_by_property_name ml ord) (rev (ord # os))) ml
      = (case ?inner of (Some e, ml') \<Rightarrow> (Some e, ml')
         | (None, ml') \<Rightarrow> sort_by_property_name ml' ord)"
    by (simp add: run_steps_append)
  have le: "order_le (ord # os) = lex_le (pass_le ord) (order_le os)"
    by (simp add: fun_eq_iff)
  show ?case
  proof (cases "sortable os ml")
    case False
    with Cons have "fst ?inner \<noteq> None" by simp
    then obtain e ml' where "?inner = (Some e, ml')"
      by (cases ?inner) auto
    with False show ?thesis
      by (simp only: steps sortable_Cons) simp
  next
    case True
    with Cons have inner: "?inner = (None, ?sorted)" by simp
    have same: "list_all (\<lambda>m. has_key m ord) ?sorted = list_all (\<lambda>m. has_key m ord) ml"
      by (simp add: list_all_iff)
    show ?thesis
    proof (cases "list_all (\<lambda>m. has_key m ord) ml")
      case k: True
      with same have "sort_by_property_name ?sorted ord
          = (None, stable_sort_by (pass_le ord) ?sorted)"
        by (simp add: sort_by_property_name_pass)
      also have "stable_sort_by (pass_le ord) ?sorted = stable_sort_by (order_le (ord # os)) ml"
        by (simp only: le stable_sort_by_twice[OF total_preorder_pass_le total_preorder_order_le])
      finally show ?thesis using True k
        by (simp only: steps inner sortable_Cons) (simp add: le)
    next
      case k: False
      with same sort_by_property_name_fail[of ord ?sorted]
      obtain e where "sort_by_property_name ?sorted ord = (Some e, ?sorted)" by blast
      with k show ?thesis
        by (simp only: steps inner sortable_Cons) simp
    qed
  qed
qed

lemma lexicographic_lt_order_le:
  "(\<not> lexicographic_lt (map order_descending os)
        (map (\<lambda>ord. key_or_none (order_name ord) b) os)
        (map (\<lambda>ord. key_or_none (order_name ord) a) os))
     = order_le os a b"
  by (induction os) (auto simp: lex_le_def pass_le_def operator_lt_def)

lemma lexicographic_stable_sort_sortable:
  assumes "sortable os ml"
  shows "lexicographic_stable_sort os ml = Inr (stable_sort_by (order_le os) ml)"
proof -
  let ?K = "\<lambda>m. map (\<lambda>ord. key_or_none (order_name ord) m) os"
  have "\<And>m. m \<in> set ml \<Longrightarrow> order_keys os m = Inr (?K m)"
    unfolding order_keys_def using assms
    by (intro traverse_map) (simp add: sortable_def list_all_iff has_key_iff)
  then have "traverse (order_keys os) ml = Inr (map ?K ml)"
    by (intro traverse_map)
  then show ?thesis
    by (simp add: lexicographic_stable_sort_def decorate_sort_undecorate
        lexicographic_lt_order_le)
qed

lemma lexicographic_stable_sort_fail:
  assumes "\<not> sortable os ml"
  shows "\<exists>e. lexicographic_stable_sort os ml = Inl e"
proof -
  from assms obtain m ord where m: "m \<in> set ml" and "ord \<in> set os" "\<not> has_key m ord"
    by (auto simp: sortable_def list_all_iff)
  with not_has_key obtain e where "get_model_property m (order_name ord) = Inl e" by blast
  with \<open>ord \<in> set os\<close> obtain e' where "order_keys os m = Inl e'"
    unfolding order_keys_def
    using traverse_fail[of ord os "\<lambda>ord. get_model_property m (order_name ord)" e] by blast
  with m obtain e'' where "traverse (order_keys os) ml = Inl e''"
    using traverse_fail[of m ml "order_keys os" e'] by blast
  then show ?thesis by (simp add: lexicographic_stable_sort_def)
qed

section \<open>The sort of the evaluation\<close>

text \<open>
  Claim C1. For a query with a non-empty order, the order block runs one pass of
  \<^verbatim>\<open>_sort_by_property_name\<close> per order key, the keys taken in reverse priority. A pass on
  a list whose elements all have the key is the stable sort by that one key, ascending,
  or descending for a key with a leading \<^verbatim>\<open>-\<close>. The block agrees with the lexicographic
  multi-key stable sort by the order keys in listed priority: when that sort has a
  result the block completes with the same list, and when a key cannot be read on some
  element both raise. On the entities with ids 2, 1, 3 and scores 5, 5, 9 of kind \<^verbatim>\<open>A\<close>
  the query with kind \<^verbatim>\<open>A\<close> and order \<^verbatim>\<open>-score\<close>, \<^verbatim>\<open>id\<close> leaves the ids 3, 1, 2.
\<close>

theorem order_block_lexicographic:
  assumes "order q = Some os" and "os \<noteq> []"
  shows "order_block q ml
           = run_steps (map (\<lambda>ord ml. sort_by_property_name ml ord) (rev os)) ml
         \<and> (\<forall>ord. list_all (\<lambda>m. has_key m ord) ml \<longrightarrow>
               sort_by_property_name ml ord = (None, stable_sort_by (pass_le ord) ml))
         \<and> (case lexicographic_stable_sort os ml of
               Inr ys \<Rightarrow> order_block q ml = (None, ys)
             | Inl e \<Rightarrow> fst (order_block q ml) \<noteq> None)
         \<and> apply_query_to_models (query_A\<lparr>order := Some [''-score'', ''id'']\<rparr>)
               [entity_A 2 5, entity_A 1 5, entity_A 3 9]
             = (None, [entity_A 3 9, entity_A 1 5, entity_A 2 5])"
proof (intro conjI allI impI)
  show block: "order_block q ml
      = run_steps (map (\<lambda>ord ml. sort_by_property_name ml ord) (rev os)) ml"
    using assms by (simp add: order_block_def)
  show "sort_by_property_name ml ord = (None, stable_sort_by (pass_le ord) ml)"
    if "list_all (\<lambda>m. has_key m ord) ml" for ord
    using that by (rule sort_by_property_name_pass)
  show "case lexicographic_stable_sort os ml of
          Inr ys \<Rightarrow> order_block q ml = (None, ys)
        | Inl e \<Rightarrow> fst (order_block q ml) \<noteq> None"
  proof (cases "sortable os ml")
    case True
    with sort_passes[of os ml] lexicographic_stable_sort_sortable[of os ml]
    show ?thesis by (simp add: block)
  next
    case False
    with sort_passes[of os ml] lexicographic_stable_sort_fail[of os ml]
    show ?thesis by (auto simp: block)
  qed
  show "apply_query_to_models (query_A\<lparr>order := Some [''-score'', ''id'']\<rparr>)
               [entity_A 2 5, entity_A 1 5, entity_A 3 9]
             = (None, [entity_A 3 9, entity_A 1 5, entity_A 2 5])"
    by (simp add: apply_query_to_models_def ex_defs kind_block_def namespace_block_def
        filters_block_def order_block_def limit_block_def assign_all_def get_model_kind_def
        sort_by_property_name_def startswith_def list_sort_def get_model_property_def
        get_model_id_def getattr_def not_above_def operator_lt_def stable_sort_by_def)
qed

theorem order_block_lexicographic_witness:
  "lexicographic_stable_sort [''-score'', ''id''] [entity_A 2 5, entity_A 1 5, entity_A 3 9]
     = Inr [entity_A 3 9, entity_A 1 5, entity_A 2 5]
   \<and> order_block (query_A\<lparr>order := Some [''-score'', ''id'']\<rparr>)
       [entity_A 2 5, entity_A 1 5, entity_A 3 9]
     = (None, [entity_A 3 9, entity_A 1 5, entity_A 2 5])
   \<and> fst (order_block (query_A\<lparr>order := Some [''-score'', ''rank'']\<rparr>)
       [entity_A 2 5, entity_A 1 5, entity_A 3 9]) \<noteq> None"
proof -
  have lex: "lexicographic_stable_sort [''-score'', ''id'']
      [entity_A 2 5, entity_A 1 5, entity_A 3 9]
     = Inr [entity_A 3 9, entity_A 1 5, entity_A 2 5]"
    by (simp add: lexicographic_stable_sort_def order_keys_def order_name_def
        order_descending_def startswith_def ex_defs get_model_property_def get_model_id_def
        getattr_def operator_lt_def stable_sort_by_def)
  have nolex: "lexicographic_stable_sort [''-score'', ''rank'']
      [entity_A 2 5, entity_A 1 5, entity_A 3 9] = Inl (AttributeError ''rank'')"
    by (simp add: lexicographic_stable_sort_def order_keys_def order_name_def
        order_descending_def startswith_def ex_defs get_model_property_def get_model_id_def
        getattr_def)
  have o1: "order (query_A\<lparr>order := Some [''-score'', ''id'']\<rparr>) = Some [''-score'', ''id'']"
    and o2: "order (query_A\<lparr>order := Some [''-score'', ''rank'']\<rparr>)
      = Some [''-score'', ''rank'']"
    and n1: "[''-score'', ''id''] \<noteq> []" and n2: "[''-score'', ''rank''] \<noteq> []"
    by simp_all
  from order_block_lexicographic[OF o1 n1, of "[entity_A 2 5, entity_A 1 5, entity_A 3 9]"]
  have "case lexicographic_stable_sort [''-score'', ''id'']
          [entity_A 2 5, entity_A 1 5, entity_A 3 9] of
          Inr ys \<Rightarrow> order_block (query_A\<lparr>order := Some [''-score'', ''id'']\<rparr>)
            [entity_A 2 5, entity_A 1 5, entity_A 3 9] = (None, ys)
        | Inl e \<Rightarrow> fst (order_block (query_A\<lparr>order := Some [''-score'', ''id'']\<rparr>)
            [entity_A 2 5, entity_A 1 5, entity_A 3 9]) \<noteq> None"
    by blast
  then have r1: "order_block (query_A\<lparr>order := Some [''-score'', ''id'']\<rparr>)
      [entity_A 2 5, entity_A 1 5, entity_A 3 9]
      = (None, [entity_A 3 9, entity_A 1 5, entity_A 2 5])"
    by (simp only: lex sum.case)
  from order_block_lexicographic[OF o2 n2, of "[entity_A 2 5, entity_A 1 5, entity_A 3 9]"]
  have "case lexicographic_stable_sort [''-score'', ''rank'']
          [entity_A 2 5, entity_A 1 5, entity_A 3 9] of
          Inr ys \<Rightarrow> order_block (query_A\<lparr>order := Some [''-score'', ''rank'']\<rparr>)
            [entity_A 2 5, entity_A 1 5, entity_A 3 9] = (None, ys)
        | Inl e \<Rightarrow> fst (order_block (query_A\<lparr>order := Some [''-score'', ''rank'']\<rparr>)
            [entity_A 2 5, entity_A 1 5, entity_A 3 9]) \<noteq> None"
    by blast
  then have r2: "fst (order_block (query_A\<lparr>order := Some [''-score'', ''rank'']\<rparr>)
      [entity_A 2 5, entity_A 1 5, entity_A 3 9]) \<noteq> None"
    by (simp add: nolex)
  from lex r1 r2 show ?thesis by blast
qed

end
